theory Spec2Isabelle
  imports Main "HOL-Library.Char_ord" "HOL-Library.List_Lexorder" "HOL-Library.Log_Nat"
begin

section \<open>The quiz store and the quiz runner of quiz.py\<close>

text \<open>
  The program keeps quizzes and their questions in an SQLite file and runs a quiz in the
  terminal. The store is modelled as the two tables of \<^verbatim>\<open>init_database\<close> together with
  the \<^verbatim>\<open>sqlite_sequence\<close> counters that AUTOINCREMENT maintains; every method of
  \<^verbatim>\<open>QuizDatabase\<close> takes the store and returns its result with the store it leaves.
  An exception is a value of type \<open>error\<close> on the left of a sum.

  Strings are \<open>char list\<close>; a character is a code point below 256, which covers the
  letters the program compares against. SQLite orders TEXT by the bytes of its UTF-8
  encoding, which is the order of the code points, so the order of \<open>List_Lexorder\<close> over
  \<open>Char_ord\<close> is the order of \<^verbatim>\<open>ORDER BY name\<close>. The \<^verbatim>\<open>created_at\<close> columns are left
  out: no operation reads them. A rowid is a natural number (SQLite's 64-bit bound is out
  of reach of any run).
\<close>

subsection \<open>Exceptions\<close>

datatype error =
    ValueError string
  | IntegrityError
  | IndexError
  | TypeError
  | EOFError
  | ZeroDivisionError

subsection \<open>Schema\<close>

text \<open>
  \<^verbatim>\<open>quizzes (id INTEGER PRIMARY KEY AUTOINCREMENT, name TEXT UNIQUE NOT NULL,
            title TEXT NOT NULL, description TEXT)\<close>
\<close>

record quiz_row =
  qz_id :: nat
  qz_name :: string
  qz_title :: string
  qz_description :: "string option"

text \<open>
  \<^verbatim>\<open>questions (id INTEGER PRIMARY KEY AUTOINCREMENT, quiz_id INTEGER NOT NULL,
              question TEXT NOT NULL, choice_a .. choice_d TEXT NOT NULL,
              correct_answer TEXT NOT NULL CHECK (correct_answer IN ('a','b','c','d')),
              explanation TEXT,
              FOREIGN KEY (quiz_id) REFERENCES quizzes (id) ON DELETE CASCADE)\<close>
\<close>

record question_row =
  q_id :: nat
  q_quiz_id :: nat
  q_question :: string
  q_choice_a :: string
  q_choice_b :: string
  q_choice_c :: string
  q_choice_d :: string
  q_correct_answer :: string
  q_explanation :: "string option"

record database =
  quizzes :: "quiz_row list"
  questions :: "question_row list"
  seq_quizzes :: nat
  seq_questions :: nat

text \<open>
  A connection carries the setting of \<^verbatim>\<open>PRAGMA foreign_keys\<close>. SQLite switches the
  enforcement of foreign keys, and with it every \<^verbatim>\<open>ON DELETE CASCADE\<close> action, off for
  each new connection; a program turns it on with \<^verbatim>\<open>PRAGMA foreign_keys = ON\<close>.
  quiz.py opens a connection per call with \<^verbatim>\<open>sqlite3.connect(self.db_path)\<close> and issues
  no pragma.
\<close>

record connection =
  foreign_keys :: bool

definition sqlite3_connect :: connection where
  "sqlite3_connect = \<lparr>foreign_keys = False\<rparr>"

text \<open>
  AUTOINCREMENT: the new rowid is one more than the largest rowid the table has ever
  held, which is the larger of the \<^verbatim>\<open>sqlite_sequence\<close> entry and the largest rowid
  present.
\<close>

definition next_rowid :: "nat \<Rightarrow> nat list \<Rightarrow> nat" where
  "next_rowid seq ids = Suc (fold max ids seq)"

text \<open>\<^verbatim>\<open>init_database\<close>: \<^verbatim>\<open>CREATE TABLE IF NOT EXISTS\<close> on a file that may be new.\<close>

definition init_database :: "database option \<Rightarrow> database" where
  "init_database file =
     (case file of
        None \<Rightarrow> \<lparr>quizzes = [], questions = [], seq_quizzes = 0, seq_questions = 0\<rparr>
      | Some db \<Rightarrow> db)"

subsection \<open>Messages\<close>

definition quote :: "string \<Rightarrow> string" where
  "quote s = [CHR 0x27] @ s @ [CHR 0x27]"

definition already_exists :: "string \<Rightarrow> error" where
  "already_exists name = ValueError (''Quiz '' @ quote name @ '' already exists!'')"

definition not_found :: "string \<Rightarrow> error" where
  "not_found quiz_name = ValueError (''Quiz '' @ quote quiz_name @ '' not found!'')"

subsection \<open>QuizDatabase\<close>

text \<open>
  \<^verbatim>\<open>create_quiz\<close>: the INSERT violates \<^verbatim>\<open>name TEXT UNIQUE\<close> when the name is taken;
  the IntegrityError is turned into a ValueError and nothing is committed.
\<close>

definition create_quiz ::
  "string \<Rightarrow> string \<Rightarrow> string \<Rightarrow> database \<Rightarrow> (error + nat) \<times> database" where
  "create_quiz name title description db =
     (if name \<in> set (map qz_name (quizzes db)) then (Inl (already_exists name), db)
      else
        let quiz_id = next_rowid (seq_quizzes db) (map qz_id (quizzes db));
            row = \<lparr>qz_id = quiz_id, qz_name = name, qz_title = title,
                   qz_description = Some description\<rparr>
        in (Inr quiz_id, db\<lparr>quizzes := quizzes db @ [row], seq_quizzes := quiz_id\<rparr>))"

text \<open>
  \<^verbatim>\<open>add_question\<close>: \<^verbatim>\<open>SELECT id FROM quizzes WHERE name = ?\<close> and \<^verbatim>\<open>fetchone\<close>;
  then the parameter tuple reads \<^verbatim>\<open>choices[0] .. choices[3]\<close> (IndexError on a shorter
  list), and the INSERT checks \<^verbatim>\<open>correct_answer IN ('a','b','c','d')\<close>.
\<close>

definition valid_labels :: "string list" where
  "valid_labels = [''a'', ''b'', ''c'', ''d'']"

definition add_question ::
  "string \<Rightarrow> string \<Rightarrow> string list \<Rightarrow> string \<Rightarrow> string \<Rightarrow> database
     \<Rightarrow> (error + unit) \<times> database" where
  "add_question quiz_name question choices correct explanation db =
     (case filter (\<lambda>r. qz_name r = quiz_name) (quizzes db) of
        [] \<Rightarrow> (Inl (not_found quiz_name), db)
      | result # _ \<Rightarrow>
          let quiz_id = qz_id result in
          if length choices < 4 then (Inl IndexError, db)
          else if correct \<notin> set valid_labels then (Inl IntegrityError, db)
          else
            let new_id = next_rowid (seq_questions db) (map q_id (questions db));
                row = \<lparr>q_id = new_id, q_quiz_id = quiz_id, q_question = question,
                       q_choice_a = choices ! 0, q_choice_b = choices ! 1,
                       q_choice_c = choices ! 2, q_choice_d = choices ! 3,
                       q_correct_answer = correct, q_explanation = Some explanation\<rparr>
            in (Inr (), db\<lparr>questions := questions db @ [row], seq_questions := new_id\<rparr>))"

text \<open>The dictionary \<^verbatim>\<open>get_quiz_questions\<close> builds for each row.\<close>

record question_dict =
  question :: string
  choices :: "string list"
  correct :: int
  explanation :: string

text \<open>\<^verbatim>\<open>ord(s)\<close> raises TypeError unless \<open>s\<close> is one character long.\<close>

definition ord :: "string \<Rightarrow> error + int" where
  "ord s = (case s of [c] \<Rightarrow> Inr (of_char c) | _ \<Rightarrow> Inl TypeError)"

definition row_dict :: "question_row \<Rightarrow> error + question_dict" where
  "row_dict row =
     (case ord (q_correct_answer row) of
        Inl e \<Rightarrow> Inl e
      | Inr code \<Rightarrow>
          Inr \<lparr>question = q_question row,
               choices = [q_choice_a row, q_choice_b row, q_choice_c row, q_choice_d row],
               correct = code - 97,
               explanation = (case q_explanation row of None \<Rightarrow> [] | Some s \<Rightarrow> s)\<rparr>)"

text \<open>The loop over \<^verbatim>\<open>cursor.fetchall()\<close> that appends one dictionary per row.\<close>

fun row_dicts :: "question_row list \<Rightarrow> error + question_dict list" where
  "row_dicts [] = Inr []"
| "row_dicts (row # rows) =
     (case row_dict row of
        Inl e \<Rightarrow> Inl e
      | Inr d \<Rightarrow> (case row_dicts rows of Inl e \<Rightarrow> Inl e | Inr ds \<Rightarrow> Inr (d # ds)))"

text \<open>
  \<^verbatim>\<open>SELECT ... FROM questions q JOIN quizzes qz ON q.quiz_id = qz.id
  WHERE qz.name = ? ORDER BY q.id\<close>
\<close>

definition select_questions :: "string \<Rightarrow> database \<Rightarrow> question_row list" where
  "select_questions quiz_name db =
     sort_key q_id
       (concat (map (\<lambda>q. map (\<lambda>qz. q)
                  (filter (\<lambda>qz. q_quiz_id q = qz_id qz \<and> qz_name qz = quiz_name) (quizzes db)))
          (questions db)))"

definition get_quiz_questions :: "string \<Rightarrow> database \<Rightarrow> error + question_dict list" where
  "get_quiz_questions quiz_name db = row_dicts (select_questions quiz_name db)"

text \<open>
  \<^verbatim>\<open>SELECT qz.name, qz.title, qz.description, COUNT(q.id)
  FROM quizzes qz LEFT JOIN questions q ON qz.id = q.quiz_id ... GROUP BY qz.id\<close>:
  one row per quiz (\<open>id\<close> is the primary key), with the number of its questions.
\<close>

record quiz_info =
  info_name :: string
  info_title :: string
  info_description :: "string option"
  info_question_count :: nat

definition info_of :: "database \<Rightarrow> quiz_row \<Rightarrow> quiz_info" where
  "info_of db qz =
     \<lparr>info_name = qz_name qz, info_title = qz_title qz, info_description = qz_description qz,
      info_question_count = length (filter (\<lambda>q. q_quiz_id q = qz_id qz) (questions db))\<rparr>"

definition get_quiz_info :: "string \<Rightarrow> database \<Rightarrow> quiz_info option" where
  "get_quiz_info quiz_name db =
     (case filter (\<lambda>qz. qz_name qz = quiz_name) (quizzes db) of
        [] \<Rightarrow> None
      | result # _ \<Rightarrow> Some (info_of db result))"

definition list_quizzes :: "database \<Rightarrow> quiz_info list" where
  "list_quizzes db = sort_key info_name (map (info_of db) (quizzes db))"

text \<open>
  \<^verbatim>\<open>delete_quiz\<close>: \<^verbatim>\<open>DELETE FROM quizzes WHERE name = ?\<close>, then \<^verbatim>\<open>rowcount > 0\<close>.
  The cascade of the schema removes the questions of the deleted quizzes when the
  connection enforces foreign keys.
\<close>

definition sql_delete_quizzes :: "connection \<Rightarrow> string \<Rightarrow> database \<Rightarrow> nat \<times> database" where
  "sql_delete_quizzes conn quiz_name db =
     (let gone = filter (\<lambda>qz. qz_name qz = quiz_name) (quizzes db);
          kept = filter (\<lambda>qz. qz_name qz \<noteq> quiz_name) (quizzes db);
          left = (if foreign_keys conn
                  then filter (\<lambda>q. q_quiz_id q \<notin> set (map qz_id gone)) (questions db)
                  else questions db)
      in (length gone, db\<lparr>quizzes := kept, questions := left\<rparr>))"

definition delete_quiz :: "string \<Rightarrow> database \<Rightarrow> bool \<times> database" where
  "delete_quiz quiz_name db =
     (let conn = sqlite3_connect;
          (rowcount, db') = sql_delete_quizzes conn quiz_name db
      in (rowcount > 0, db'))"

subsection \<open>Strings, characters and lists as the quiz runner uses them\<close>

text \<open>\<^verbatim>\<open>str.strip()\<close> and \<^verbatim>\<open>str.lower()\<close> on code points below 256.\<close>

definition isspace :: "char \<Rightarrow> bool" where
  "isspace c =
     (let n = (of_char c :: nat)
      in (9 \<le> n \<and> n \<le> 13) \<or> (28 \<le> n \<and> n \<le> 32) \<or> n = 133 \<or> n = 160)"

definition strip :: "string \<Rightarrow> string" where
  "strip s = rev (dropWhile isspace (rev (dropWhile isspace s)))"

definition lower_char :: "char \<Rightarrow> char" where
  "lower_char c =
     (let n = (of_char c :: nat)
      in if (65 \<le> n \<and> n \<le> 90) \<or> (192 \<le> n \<and> n \<le> 222 \<and> n \<noteq> 215)
         then char_of (n + 32) else c)"

definition lower :: "string \<Rightarrow> string" where
  "lower s = map lower_char s"

text \<open>
  \<^verbatim>\<open>chr(i)\<close>: the one-character string of code point \<open>i\<close>, given here by its code
  point, since it may lie beyond 255.
\<close>

definition chr :: "int \<Rightarrow> error + int" where
  "chr i =
     (if 0 \<le> i \<and> i < 0x110000 then Inr i
      else Inl (ValueError ''chr() arg not in range(0x110000)''))"

text \<open>
  \<^verbatim>\<open>xs[i]\<close> for a list of length \<open>n\<close>: positions \<open>0 .. n - 1\<close> from the front,
  \<open>-1 .. -n\<close> from the back, IndexError otherwise.
\<close>

definition getitem :: "'a list \<Rightarrow> int \<Rightarrow> error + 'a" where
  "getitem xs i =
     (if 0 \<le> i \<and> i < int (length xs) then Inr (xs ! nat i)
      else if i < 0 \<and> - int (length xs) \<le> i then Inr (xs ! nat (int (length xs) + i))
      else Inl IndexError)"

subsection \<open>Floating point\<close>

text \<open>
  \<^verbatim>\<open>(self.score / self.total) * 100\<close> is a binary64 computation: the quotient of the
  two integers is rounded to the nearest double, ties to even, and so is the product.
  A double is modelled by the rational number it denotes. \<open>float_round\<close> is the rounding
  to 53 significant bits; it is the rounding of binary64 on the normal range
  (magnitudes from \<open>2\<^sup>-\<^sup>1\<^sup>0\<^sup>2\<^sup>2\<close> up to \<open>2\<^sup>1\<^sup>0\<^sup>2\<^sup>4\<close>), which holds every quotient of a score by a
  number of questions and its product with 100.
\<close>

definition round_half_even :: "rat \<Rightarrow> int" where
  "round_half_even x =
     (let n = \<lfloor>x\<rfloor>; r = x - of_int n
      in if r < 1 / 2 then n else if 1 / 2 < r then n + 1 else if even n then n else n + 1)"

text \<open>\<open>exponent x\<close> is \<open>\<lfloor>log\<^sub>2 x\<rfloor>\<close> for a positive \<open>x\<close>.\<close>

definition exponent :: "rat \<Rightarrow> int" where
  "exponent x = (if 1 \<le> x then bitlen \<lfloor>x\<rfloor> - 1 else - bitlen (\<lceil>1 / x\<rceil> - 1))"

definition float_round :: "rat \<Rightarrow> rat" where
  "float_round x =
     (if x = 0 then 0
      else let u = 2 powi (exponent \<bar>x\<bar> - 52)
           in of_int (round_half_even (x / u)) * u)"

definition percentage :: "nat \<Rightarrow> nat \<Rightarrow> error + rat" where
  "percentage score_v total_v =
     (if total_v = 0 then Inl ZeroDivisionError
      else Inr (float_round (float_round (of_nat score_v / of_nat total_v) * 100)))"

text \<open>\<^verbatim>\<open>f"{percentage:.1f}"\<close> for a value that is not negative.\<close>

definition digit :: "nat \<Rightarrow> char" where
  "digit n = char_of (48 + n)"

function str_nat :: "nat \<Rightarrow> string" where
  "str_nat n = (if n < 10 then [digit n] else str_nat (n div 10) @ [digit (n mod 10)])"
  by pat_completeness auto
termination
  by (relation "measure (\<lambda>n. n)") auto

declare str_nat.simps [simp del]

definition format_1f :: "rat \<Rightarrow> string" where
  "format_1f x =
     (let t = nat (round_half_even (x * 10))
      in str_nat (t div 10) @ ''.'' @ str_nat (t mod 10))"

subsection \<open>The Quiz object, the heap of lists and the terminal\<close>

datatype rating = Excellent | Great | Good | Keep_studying | Practice

text \<open>One constructor for each \<^verbatim>\<open>print\<close> and each prompt of \<^verbatim>\<open>input\<close>, with the values it shows.\<close>

datatype printed =
    No_questions string
  | Banner string nat
  | Question_header nat nat string
  | Choice_line int string
  | Prompt_answer
  | Correct_msg
  | Wrong_msg int string
  | Explanation_msg string
  | Prompt_enter
  | Invalid_msg
  | Score_line nat nat string
  | Rating_line rating

record terminal =
  stdin :: "string list"
  stdout :: "printed list"

text \<open>
  A Python list is an object: \<^verbatim>\<open>self.questions\<close> holds a reference to the list the caller
  passed, \<^verbatim>\<open>copy()\<close> makes a new list object and \<^verbatim>\<open>random.shuffle\<close> permutes a list
  object in place. The heap maps a reference to the list it holds; references below
  \<open>allocated\<close> are in use. The dictionaries in the lists are never written by the runner
  and are kept as values.
\<close>

type_synonym ref = nat

record heap =
  lists :: "ref \<Rightarrow> question_dict list"
  allocated :: nat

record quiz =
  self_name :: string
  self_title :: string
  self_questions :: ref
  self_score :: nat
  self_total :: nat

definition Quiz_init :: "string \<Rightarrow> string \<Rightarrow> ref \<Rightarrow> heap \<Rightarrow> quiz" where
  "Quiz_init name title qs h =
     \<lparr>self_name = name, self_title = title, self_questions = qs,
      self_score = 0, self_total = length (lists h qs)\<rparr>"

definition list_copy :: "ref \<Rightarrow> heap \<Rightarrow> ref \<times> heap" where
  "list_copy r h =
     (allocated h, \<lparr>lists = (lists h)(allocated h := lists h r), allocated = Suc (allocated h)\<rparr>)"

text \<open>
  \<^verbatim>\<open>random.shuffle(x)\<close> rearranges the list object \<open>x\<close> in place; the rearrangement the
  generator picks is the parameter \<open>rnd\<close>.
\<close>

definition random_shuffle ::
  "(question_dict list \<Rightarrow> question_dict list) \<Rightarrow> ref \<Rightarrow> heap \<Rightarrow> heap" where
  "random_shuffle rnd r h = h\<lparr>lists := (lists h)(r := rnd (lists h r))\<rparr>"

text \<open>\<^verbatim>\<open>input(prompt)\<close> shows the prompt and reads a line; EOFError at the end of the input.\<close>

definition input_line :: "printed \<Rightarrow> terminal \<Rightarrow> (error + string) \<times> terminal" where
  "input_line prompt t =
     (case stdin t of
        [] \<Rightarrow> (Inl EOFError, t\<lparr>stdout := stdout t @ [prompt]\<rparr>)
      | line # rest \<Rightarrow> (Inr line, \<lparr>stdin = rest, stdout = stdout t @ [prompt]\<rparr>))"

subsection \<open>Quiz.\_ask\_question\<close>

text \<open>The loop that prints \<^verbatim>\<open>{letter}) {choice}\<close> with \<^verbatim>\<open>letter = chr(ord('a') + i)\<close>.\<close>

fun print_choices :: "nat \<Rightarrow> string list \<Rightarrow> printed list \<Rightarrow> (error + unit) \<times> printed list" where
  "print_choices i [] out = (Inr (), out)"
| "print_choices i (choice # rest) out =
     (case chr (97 + int i) of
        Inl e \<Rightarrow> (Inl e, out)
      | Inr letter \<Rightarrow> print_choices (Suc i) rest (out @ [Choice_line letter choice]))"

text \<open>
  The body of \<^verbatim>\<open>if answer in ['a', 'b', 'c', 'd']\<close>: compare, count, report, show the
  explanation, wait for Enter, and return True.
\<close>

definition grade ::
  "question_dict \<Rightarrow> quiz \<Rightarrow> string \<Rightarrow> terminal \<Rightarrow> (error + bool) \<times> quiz \<times> terminal" where
  "grade q self answer t =
     (let correct_index = correct q in
      case ord answer of
        Inl e \<Rightarrow> (Inl e, self, t)
      | Inr code \<Rightarrow>
          (case (if code - 97 = correct_index
                 then Inr (self\<lparr>self_score := self_score self + 1\<rparr>, Correct_msg)
                 else case chr (97 + correct_index) of
                        Inl e \<Rightarrow> Inl e
                      | Inr correct_letter \<Rightarrow>
                          (case getitem (choices q) correct_index of
                             Inl e \<Rightarrow> Inl e
                           | Inr choice \<Rightarrow> Inr (self, Wrong_msg correct_letter choice))) of
             Inl e \<Rightarrow> (Inl e, self, t)
           | Inr (self', msg) \<Rightarrow>
               let shown = stdout t @ [msg] @
                     (if explanation q \<noteq> [] then [Explanation_msg (explanation q)] else [])
               in case input_line Prompt_enter (t\<lparr>stdout := shown\<rparr>) of
                    (Inl e, t') \<Rightarrow> (Inl e, self', t')
                  | (Inr _, t') \<Rightarrow> (Inr True, self', t')))"

text \<open>
  The \<^verbatim>\<open>while True\<close> loop: one line of input per round, by recursion on the lines that
  are left.
\<close>

fun answer_loop ::
  "question_dict \<Rightarrow> quiz \<Rightarrow> string list \<Rightarrow> printed list \<Rightarrow> (error + bool) \<times> quiz \<times> terminal" where
  "answer_loop q self [] out = (Inl EOFError, self, \<lparr>stdin = [], stdout = out @ [Prompt_answer]\<rparr>)"
| "answer_loop q self (line # rest) out =
     (let answer = lower (strip line); asked = out @ [Prompt_answer]
      in if answer = ''quit'' then (Inr False, self, \<lparr>stdin = rest, stdout = asked\<rparr>)
         else if answer \<in> set valid_labels then grade q self answer \<lparr>stdin = rest, stdout = asked\<rparr>
         else answer_loop q self rest (asked @ [Invalid_msg]))"

definition ask_question ::
  "nat \<Rightarrow> question_dict \<Rightarrow> quiz \<Rightarrow> terminal \<Rightarrow> (error + bool) \<times> quiz \<times> terminal" where
  "ask_question num q self t =
     (case print_choices 0 (choices q)
             (stdout t @ [Question_header num (self_total self) (question q)]) of
        (Inl e, out) \<Rightarrow> (Inl e, self, t\<lparr>stdout := out\<rparr>)
      | (Inr _, out) \<Rightarrow> answer_loop q self (stdin t) out)"

subsection \<open>Quiz.\_show\_results and Quiz.run\<close>

definition rate :: "rat \<Rightarrow> rating" where
  "rate p =
     (if p \<ge> 90 then Excellent
      else if p \<ge> 80 then Great
      else if p \<ge> 70 then Good
      else if p \<ge> 60 then Keep_studying
      else Practice)"

definition show_results :: "quiz \<Rightarrow> terminal \<Rightarrow> (error + unit) \<times> terminal" where
  "show_results self t =
     (case percentage (self_score self) (self_total self) of
        Inl e \<Rightarrow> (Inl e, t)
      | Inr p \<Rightarrow>
          (Inr (), t\<lparr>stdout := stdout t @
             [Score_line (self_score self) (self_total self) (format_1f p), Rating_line (rate p)]\<rparr>))"

text \<open>
  \<^verbatim>\<open>for i, question in enumerate(questions, 1): if not self._ask_question(i, question): break\<close>
\<close>

fun ask_questions ::
  "nat \<Rightarrow> question_dict list \<Rightarrow> quiz \<Rightarrow> terminal \<Rightarrow> (error + unit) \<times> quiz \<times> terminal" where
  "ask_questions i [] self t = (Inr (), self, t)"
| "ask_questions i (q # qs) self t =
     (case ask_question i q self t of
        (Inl e, self', t') \<Rightarrow> (Inl e, self', t')
      | (Inr False, self', t') \<Rightarrow> (Inr (), self', t')
      | (Inr True, self', t') \<Rightarrow> ask_questions (Suc i) qs self' t')"

definition run ::
  "(question_dict list \<Rightarrow> question_dict list) \<Rightarrow> bool \<Rightarrow> quiz \<Rightarrow> heap \<Rightarrow> terminal
     \<Rightarrow> (error + unit) \<times> quiz \<times> heap \<times> terminal" where
  "run rnd shuffle self h t =
     (if lists h (self_questions self) = []
      then (Inr (), self, h, t\<lparr>stdout := stdout t @ [No_questions (self_name self)]\<rparr>)
      else
        let t1 = t\<lparr>stdout := stdout t @ [Banner (self_title self) (self_total self)]\<rparr>;
            (qs, h1) = list_copy (self_questions self) h;
            h2 = (if shuffle then random_shuffle rnd qs h1 else h1)
        in case ask_questions 1 (lists h2 qs) self t1 of
             (Inl e, self', t') \<Rightarrow> (Inl e, self', h2, t')
           | (Inr _, self', t') \<Rightarrow>
               (case show_results self' t' of (r, t'') \<Rightarrow> (r, self', h2, t'')))"

section \<open>Scenarios and notions used in the statements\<close>

text \<open>A new store with the quiz \<^verbatim>\<open>geo\<close>, and the same store with one question.\<close>

definition geo_quiz :: database where
  "geo_quiz = snd (create_quiz ''geo'' ''Geography'' [] (init_database None))"

definition geo_one :: database where
  "geo_one = snd (add_question ''geo'' ''Capital of France?''
                   [''Paris'', ''Rome'', ''Bern'', ''Oslo''] ''a'' [] geo_quiz)"

text \<open>
  Successive calls of \<^verbatim>\<open>add_question\<close> on one quiz, one for each tuple of question
  text, choices, correct label and explanation; the first exception ends the sequence.
\<close>

fun add_questions ::
  "string \<Rightarrow> (string \<times> string list \<times> string \<times> string) list \<Rightarrow> database
     \<Rightarrow> (error + unit) \<times> database" where
  "add_questions quiz_name [] db = (Inr (), db)"
| "add_questions quiz_name ((qtext, cs, label, expl) # rest) db =
     (case add_question quiz_name qtext cs label expl db of
        (Inl e, db') \<Rightarrow> (Inl e, db')
      | (Inr _, db') \<Rightarrow> add_questions quiz_name rest db')"

text \<open>
  The label of an index, \<^verbatim>\<open>chr(ord('a') + i)\<close>, and what it means that a dictionary
  returned by \<^verbatim>\<open>get_quiz_questions\<close> preserves an added question: the same text, the
  same choices, the index of the same label and the same explanation.
\<close>

definition letter :: "int \<Rightarrow> string" where
  "letter i = [char_of (nat (97 + i))]"

definition as_added ::
  "string \<times> string list \<times> string \<times> string \<Rightarrow> question_dict \<Rightarrow> bool" where
  "as_added new d =
     (case new of (qtext, cs, label, expl) \<Rightarrow>
        question d = qtext \<and> choices d = cs \<and> letter (correct d) = label \<and> explanation d = expl)"

subsection \<open>Sessions of the quiz runner\<close>

text \<open>
  A question as \<^verbatim>\<open>get_quiz_questions\<close> builds it from a row that meets the CHECK constraint:
  four choices and an index from 0 to 3.
\<close>

definition well_formed :: "question_dict \<Rightarrow> bool" where
  "well_formed q = (length (choices q) = 4 \<and> 0 \<le> correct q \<and> correct q < 4)"

text \<open>
  A line of input ends the prompting for an answer when, stripped and in lower case, it is
  \<^verbatim>\<open>quit\<close> or one of the four letters.
\<close>

definition decisive :: "string \<Rightarrow> bool" where
  "decisive line = (lower (strip line) = ''quit'' \<or> lower (strip line) \<in> set valid_labels)"

text \<open>
  The typed letter is the label of the correct choice: its code is that of \<^verbatim>\<open>a\<close> plus the
  correct index.
\<close>

definition matches :: "question_dict \<Rightarrow> string \<Rightarrow> bool" where
  "matches q line = (ord (lower (strip line)) = Inr (97 + correct q))"

text \<open>
  The number of questions, paired in order with the accepted answers, whose answer matches.
\<close>

definition right_answers :: "question_dict list \<Rightarrow> string list \<Rightarrow> nat" where
  "right_answers qs lines = length (filter (\<lambda>(q, line). matches q line) (zip qs lines))"

text \<open>
  What the user types for a sequence of questions: for each, lines that are rejected, then
  the answer, then the line that \<^verbatim>\<open>Press Enter to continue\<close> reads.
\<close>

definition typed :: "(string list \<times> string \<times> string) list \<Rightarrow> string list" where
  "typed groups = concat (map (\<lambda>(junk, a, e). junk @ [a, e]) groups)"

definition answers_of :: "(string list \<times> string \<times> string) list \<Rightarrow> string list" where
  "answers_of groups = map (\<lambda>(junk, a, e). a) groups"

definition valid_group :: "string list \<times> string \<times> string \<Rightarrow> bool" where
  "valid_group g =
     (case g of (junk, a, e) \<Rightarrow>
        list_all (\<lambda>l. \<not> decisive l) junk \<and> lower (strip a) \<in> set valid_labels)"

text \<open>
  The order in which a run asks the questions of the list it copied.
\<close>

definition asked_order ::
  "(question_dict list \<Rightarrow> question_dict list) \<Rightarrow> bool \<Rightarrow> question_dict list \<Rightarrow> question_dict list" where
  "asked_order rnd shuffle qs = (if shuffle then rnd qs else qs)"

text \<open>
  Three questions whose correct labels are a, b, c, held by the list object 0 of a heap;
  and a heap whose list object 0 is empty.
\<close>

definition geo_questions :: "question_dict list" where
  "geo_questions =
     [\<lparr>question = ''Capital of France?'', choices = [''Paris'', ''Rome'', ''Bern'', ''Oslo''],
       correct = 0, explanation = []\<rparr>,
      \<lparr>question = ''Capital of Italy?'', choices = [''Paris'', ''Rome'', ''Bern'', ''Oslo''],
       correct = 1, explanation = ''Rome''\<rparr>,
      \<lparr>question = ''Capital of Switzerland?'', choices = [''Paris'', ''Rome'', ''Bern'', ''Oslo''],
       correct = 2, explanation = []\<rparr>]"

definition geo_heap :: heap where
  "geo_heap = \<lparr>lists = (\<lambda>r. [])(0 := geo_questions), allocated = 1\<rparr>"

definition empty_heap :: heap where
  "empty_heap = \<lparr>lists = (\<lambda>r. []), allocated = 1\<rparr>"

section \<open>Properties of the store\<close>

subsection \<open>Row identifiers and ordering\<close>

lemma fold_max_ge_init: "(s::nat) \<le> fold max ids s"
  by (induction ids arbitrary: s) (auto intro: order_trans [OF max.cobounded2])

lemma fold_max_ge: "(x::nat) \<in> set ids \<Longrightarrow> x \<le> fold max ids s"
proof (induction ids arbitrary: s)
  case Nil
  then show ?case by simp
next
  case (Cons a ids)
  show ?case
  proof (cases "x = a")
    case True
    have "a \<le> max a s" by simp
    also have "\<dots> \<le> fold max ids (max a s)" by (rule fold_max_ge_init)
    finally show ?thesis using True by simp
  next
    case False
    with Cons show ?thesis by simp
  qed
qed

lemma next_rowid_fresh: "x \<in> set ids \<Longrightarrow> x < next_rowid s ids"
  by (simp add: next_rowid_def fold_max_ge less_Suc_eq_le)

lemma insort_key_snoc:
  "f x \<le> f y \<Longrightarrow> insort_key f x (zs @ [y]) = insort_key f x zs @ [y]"
  by (induction zs) auto

lemma sort_key_snoc:
  "\<forall>x \<in> set xs. f x \<le> f y \<Longrightarrow> sort_key f (xs @ [y]) = sort_key f xs @ [y]"
proof (induction xs)
  case Nil
  then show ?case by simp
next
  case (Cons a xs)
  then show ?case by (simp add: insort_key_snoc)
qed

lemma geo_quiz_eq:
  "geo_quiz =
     \<lparr>quizzes = [\<lparr>qz_id = 1, qz_name = ''geo'', qz_title = ''Geography'',
                  qz_description = Some []\<rparr>],
      questions = [], seq_quizzes = 1, seq_questions = 0\<rparr>"
  by (simp add: geo_quiz_def init_database_def create_quiz_def next_rowid_def Let_def)

lemma geo_one_eq:
  "geo_one =
     \<lparr>quizzes = [\<lparr>qz_id = 1, qz_name = ''geo'', qz_title = ''Geography'',
                  qz_description = Some []\<rparr>],
      questions = [\<lparr>q_id = 1, q_quiz_id = 1, q_question = ''Capital of France?'',
                    q_choice_a = ''Paris'', q_choice_b = ''Rome'', q_choice_c = ''Bern'',
                    q_choice_d = ''Oslo'', q_correct_answer = ''a'', q_explanation = Some []\<rparr>],
      seq_quizzes = 1, seq_questions = 1\<rparr>"
  by (simp add: geo_one_def geo_quiz_eq add_question_def next_rowid_def valid_labels_def Let_def)

subsection \<open>create\_quiz\<close>

lemma create_quiz_new:
  assumes "name \<notin> set (map qz_name (quizzes db))"
  shows "\<exists>i db'. create_quiz name title description db = (Inr i, db')
           \<and> name \<in> set (map qz_name (quizzes db'))"
  using assms by (simp add: create_quiz_def Let_def)

text \<open>
  C5. Creating a quiz under a name that is taken raises the ValueError
  \<^verbatim>\<open>Quiz '<name>' already exists!\<close> (the code's duplicate-name error) and leaves the
  whole store as it was, so the title, the description and the questions of the quiz
  that holds the name are unchanged.
\<close>

theorem create_quiz_duplicate:
  assumes "name \<in> set (map qz_name (quizzes db))"
  shows "create_quiz name title description db = (Inl (already_exists name), db)"
  using assms by (simp add: create_quiz_def)

theorem create_quiz_duplicate_witness:
  "create_quiz ''geo'' ''Again'' ''second'' geo_quiz = (Inl (already_exists ''geo''), geo_quiz)
   \<and> get_quiz_info ''geo'' geo_quiz
       = Some \<lparr>info_name = ''geo'', info_title = ''Geography'', info_description = Some [],
               info_question_count = 0\<rparr>"
proof -
  have h: "''geo'' \<in> set (map qz_name (quizzes geo_quiz))"
    by (simp add: geo_quiz_eq)
  have i: "get_quiz_info ''geo'' geo_quiz
       = Some \<lparr>info_name = ''geo'', info_title = ''Geography'', info_description = Some [],
               info_question_count = 0\<rparr>"
    by (simp add: geo_quiz_eq get_quiz_info_def info_of_def)
  show ?thesis using create_quiz_duplicate [OF h] i by simp
qed

subsection \<open>add\_question\<close>

text \<open>
  C6. Adding a question to a name that no quiz has raises the ValueError
  \<^verbatim>\<open>Quiz '<name>' not found!\<close> (the code's quiz-not-found error) and leaves the store,
  and with it the questions table and its number of rows, as it was.
\<close>

theorem add_question_not_found:
  assumes "quiz_name \<notin> set (map qz_name (quizzes db))"
  shows "add_question quiz_name text cs label expl db = (Inl (not_found quiz_name), db)"
proof -
  have "filter (\<lambda>r. qz_name r = quiz_name) (quizzes db) = []"
    using assms by (auto simp: filter_empty_conv)
  then show ?thesis by (simp add: add_question_def)
qed

theorem add_question_not_found_witness:
  "add_question ''math'' ''2 + 2?'' [''3'', ''4'', ''5'', ''6''] ''b'' [] geo_quiz
     = (Inl (not_found ''math''), geo_quiz)"
proof -
  have h: "''math'' \<notin> set (map qz_name (quizzes geo_quiz))"
    by (simp add: geo_quiz_eq)
  show ?thesis by (rule add_question_not_found [OF h])
qed

subsection \<open>delete\_quiz\<close>

text \<open>
  C9. \<^verbatim>\<open>delete_quiz\<close> returns True exactly when a quiz of that name was stored; the
  quizzes it leaves are the stored ones of every other name, so none of that name is
  left.
\<close>

theorem delete_quiz_returns:
  "fst (delete_quiz quiz_name db) = (quiz_name \<in> set (map qz_name (quizzes db)))
   \<and> quizzes (snd (delete_quiz quiz_name db))
       = filter (\<lambda>qz. qz_name qz \<noteq> quiz_name) (quizzes db)
   \<and> quiz_name \<notin> set (map qz_name (quizzes (snd (delete_quiz quiz_name db))))"
  by (auto simp: delete_quiz_def sql_delete_quizzes_def Let_def filter_empty_conv)

lemma concat_map_nil: "concat (map (\<lambda>x. []) xs) = []"
  by (induction xs) auto

lemma select_questions_gone:
  assumes "quiz_name \<notin> set (map qz_name (quizzes db))"
  shows "select_questions quiz_name db = []"
proof -
  have none: "filter (\<lambda>qz. q_quiz_id q = qz_id qz \<and> qz_name qz = quiz_name) (quizzes db) = []" for q
    using assms by (auto simp: filter_empty_conv)
  show ?thesis by (simp add: select_questions_def none concat_map_nil)
qed

lemma delete_quiz_view:
  "get_quiz_questions quiz_name (snd (delete_quiz quiz_name db)) = Inr []
   \<and> get_quiz_info quiz_name (snd (delete_quiz quiz_name db)) = None"
proof -
  let ?db = "snd (delete_quiz quiz_name db)"
  have q: "quizzes ?db = filter (\<lambda>qz. qz_name qz \<noteq> quiz_name) (quizzes db)"
    by (simp add: delete_quiz_def sql_delete_quizzes_def Let_def)
  then have n: "quiz_name \<notin> set (map qz_name (quizzes ?db))" by auto
  have f: "filter (\<lambda>qz. qz_name qz = quiz_name) (quizzes ?db) = []"
    using n by (auto simp: filter_empty_conv)
  show ?thesis
    using select_questions_gone [OF n] f by (simp add: get_quiz_questions_def get_quiz_info_def)
qed

lemma delete_quiz_leaves_questions:
  "questions (snd (delete_quiz quiz_name db)) = questions db"
  by (simp add: delete_quiz_def sql_delete_quizzes_def sqlite3_connect_def Let_def)

lemma cascade_when_enforced:
  assumes "foreign_keys conn"
  shows "questions (snd (sql_delete_quizzes conn quiz_name db))
     = filter (\<lambda>q. q_quiz_id q \<notin> set (map qz_id (filter (\<lambda>qz. qz_name qz = quiz_name) (quizzes db))))
         (questions db)"
  using assms by (simp add: sql_delete_quizzes_def Let_def)

text \<open>
  C1. The claim is that \<^verbatim>\<open>delete_quiz\<close> removes the quiz together with all of its
  questions. On the store with the quiz \<^verbatim>\<open>geo\<close> and one question, the call returns
  True and removes the quiz, and the question row stays in the questions table with the
  identifier of the deleted quiz: the connection does not enforce foreign keys, so the
  cascade of the schema does not run. (\<open>delete_quiz_view\<close>: the two lookups by name find
  nothing afterwards; \<open>cascade_when_enforced\<close>: with the pragma on, the rows would go.)
\<close>

theorem delete_quiz_orphans:
  "fst (delete_quiz ''geo'' geo_one)
   \<and> quizzes (snd (delete_quiz ''geo'' geo_one)) = []
   \<and> questions (snd (delete_quiz ''geo'' geo_one)) = questions geo_one
   \<and> map q_quiz_id (questions (snd (delete_quiz ''geo'' geo_one))) = [1]"
  by (simp add: geo_one_eq delete_quiz_def sql_delete_quizzes_def sqlite3_connect_def Let_def)

subsection \<open>list\_quizzes\<close>

text \<open>
  C8. \<^verbatim>\<open>list_quizzes\<close> returns one entry for each stored quiz, in ascending order of
  the names; on a new store it returns the empty list, and after creating \<^verbatim>\<open>b\<close> and
  then \<^verbatim>\<open>a\<close> the names come back as \<^verbatim>\<open>a\<close>, \<^verbatim>\<open>b\<close>.
\<close>

theorem list_quizzes_ordered:
  "sorted (map info_name (list_quizzes db))
   \<and> set (list_quizzes db) = set (map (info_of db) (quizzes db))
   \<and> length (list_quizzes db) = length (quizzes db)
   \<and> list_quizzes (init_database None) = []
   \<and> map info_name (list_quizzes
        (snd (create_quiz ''a'' ta da (snd (create_quiz ''b'' tb dbb (init_database None))))))
      = [''a'', ''b'']"
  by (simp add: list_quizzes_def init_database_def create_quiz_def info_of_def Let_def)


subsection \<open>add\_question followed by get\_quiz\_questions\<close>

lemma filter_name_unique:
  assumes "distinct (map qz_name qzs)"
    and "filter (\<lambda>qz. qz_name qz = n) qzs = r # rest"
  shows "rest = [] \<and> filter (\<lambda>qz. qz_id r = qz_id qz \<and> qz_name qz = n) qzs = [r]"
  using assms
proof (induction qzs)
  case Nil
  then show ?case by simp
next
  case (Cons a qzs)
  show ?case
  proof (cases "qz_name a = n")
    case True
    then have "n \<notin> set (map qz_name qzs)" using Cons.prems(1) by auto
    then have e: "filter (\<lambda>qz. qz_name qz = n) qzs = []"
      and e2: "filter (\<lambda>qz. qz_id r = qz_id qz \<and> qz_name qz = n) qzs = []"
      by (auto simp: filter_empty_conv)
    from True Cons.prems(2) e have "r = a" "rest = []" by auto
    then show ?thesis using True e2 by simp
  next
    case False
    then show ?thesis using Cons by simp
  qed
qed

lemma row_dicts_snoc:
  "row_dicts (rows @ [r]) =
     (case row_dicts rows of
        Inl e \<Rightarrow> Inl e
      | Inr ds \<Rightarrow> (case row_dict r of Inl e \<Rightarrow> Inl e | Inr d \<Rightarrow> Inr (ds @ [d])))"
  by (induction rows) (auto split: sum.splits)

lemma select_questions_subset:
  "set (select_questions n db) \<subseteq> set (questions db)"
  by (auto simp: select_questions_def)

lemma letter_codes:
  "char_of (97::nat) = CHR ''a''" "char_of (98::nat) = CHR ''b''"
  "char_of (99::nat) = CHR ''c''" "char_of (100::nat) = CHR ''d''"
  by code_simp+

lemma row_dict_valid:
  assumes "label \<in> set valid_labels" and "length cs = 4"
  shows "\<exists>d. row_dict \<lparr>q_id = i, q_quiz_id = k, q_question = qtext,
                       q_choice_a = cs ! 0, q_choice_b = cs ! 1, q_choice_c = cs ! 2,
                       q_choice_d = cs ! 3, q_correct_answer = label,
                       q_explanation = Some expl\<rparr> = Inr d
             \<and> as_added (qtext, cs, label, expl) d"
proof -
  from assms(2) obtain a b c d where cs: "cs = [a, b, c, d]"
    by (cases cs; simp; cases "tl cs"; simp; cases "tl (tl cs)"; simp; cases "tl (tl (tl cs))"; simp)
  from assms(1) show ?thesis
    by (auto simp: valid_labels_def row_dict_def ord_def as_added_def letter_def cs letter_codes)
qed

lemma add_question_appends:
  assumes uniq: "distinct (map qz_name (quizzes db))"
    and ex: "quiz_name \<in> set (map qz_name (quizzes db))"
    and len: "length cs = 4" and lab: "label \<in> set valid_labels"
    and old: "get_quiz_questions quiz_name db = Inr old"
  shows "\<exists>db' d. add_question quiz_name qtext cs label expl db = (Inr (), db')
           \<and> quizzes db' = quizzes db
           \<and> get_quiz_questions quiz_name db' = Inr (old @ [d])
           \<and> as_added (qtext, cs, label, expl) d"
proof -
  from ex obtain r rest where f: "filter (\<lambda>qz. qz_name qz = quiz_name) (quizzes db) = r # rest"
    by (cases "filter (\<lambda>qz. qz_name qz = quiz_name) (quizzes db)") (auto simp: filter_empty_conv)
  from filter_name_unique [OF uniq f]
  have one: "filter (\<lambda>qz. qz_id r = qz_id qz \<and> qz_name qz = quiz_name) (quizzes db) = [r]"
    by simp
  define i where "i = next_rowid (seq_questions db) (map q_id (questions db))"
  define row where "row = \<lparr>q_id = i, q_quiz_id = qz_id r, q_question = qtext,
                       q_choice_a = cs ! 0, q_choice_b = cs ! 1, q_choice_c = cs ! 2,
                       q_choice_d = cs ! 3, q_correct_answer = label,
                       q_explanation = Some expl\<rparr>"
  define db' where "db' = db\<lparr>questions := questions db @ [row], seq_questions := i\<rparr>"
  have add: "add_question quiz_name qtext cs label expl db = (Inr (), db')"
    using f len lab by (simp add: add_question_def Let_def db'_def row_def i_def)
  have sel: "select_questions quiz_name db' = select_questions quiz_name db @ [row]"
  proof -
    have below: "\<forall>x \<in> set (concat (map (\<lambda>q. map (\<lambda>qz. q)
                  (filter (\<lambda>qz. q_quiz_id q = qz_id qz \<and> qz_name qz = quiz_name) (quizzes db)))
          (questions db))). q_id x \<le> q_id row"
    proof
      fix x assume "x \<in> set (concat (map (\<lambda>q. map (\<lambda>qz. q)
                  (filter (\<lambda>qz. q_quiz_id q = qz_id qz \<and> qz_name qz = quiz_name) (quizzes db)))
          (questions db)))"
      then have "x \<in> set (questions db)" by auto
      then have "q_id x \<in> set (map q_id (questions db))" by simp
      from next_rowid_fresh [OF this] show "q_id x \<le> q_id row"
        by (simp add: row_def i_def less_imp_le)
    qed
    have "select_questions quiz_name db' =
          sort_key q_id (concat (map (\<lambda>q. map (\<lambda>qz. q)
                  (filter (\<lambda>qz. q_quiz_id q = qz_id qz \<and> qz_name qz = quiz_name) (quizzes db)))
          (questions db)) @ [row])"
      using one by (simp add: select_questions_def db'_def row_def)
    also have "\<dots> = select_questions quiz_name db @ [row]"
      unfolding select_questions_def by (rule sort_key_snoc [OF below])
    finally show ?thesis .
  qed
  from row_dict_valid [OF lab len, of i "qz_id r" qtext expl]
  obtain d where d: "row_dict row = Inr d" and ad: "as_added (qtext, cs, label, expl) d"
    by (auto simp: row_def)
  have "get_quiz_questions quiz_name db' = Inr (old @ [d])"
    using old d by (simp add: get_quiz_questions_def sel row_dicts_snoc)
  moreover have "quizzes db' = quizzes db" by (simp add: db'_def)
  ultimately show ?thesis using add ad by blast
qed

lemma add_questions_append:
  assumes "distinct (map qz_name (quizzes db))"
    and "quiz_name \<in> set (map qz_name (quizzes db))"
    and "\<forall>(qtext, cs, label, expl) \<in> set new. length cs = 4 \<and> label \<in> set valid_labels"
    and "get_quiz_questions quiz_name db = Inr old"
  shows "\<exists>db' ds. add_questions quiz_name new db = (Inr (), db')
           \<and> get_quiz_questions quiz_name db' = Inr (old @ ds)
           \<and> list_all2 as_added new ds"
  using assms
proof (induction new arbitrary: db old)
  case Nil
  then show ?case by simp
next
  case (Cons a new)
  obtain qtext cs label expl where a: "a = (qtext, cs, label, expl)" by (cases a) auto
  from Cons.prems(3) a have len: "length cs = 4" and lab: "label \<in> set valid_labels" by auto
  from add_question_appends [OF Cons.prems(1,2) len lab Cons.prems(4), of qtext expl]
  obtain db1 d where
    s1: "add_question quiz_name qtext cs label expl db = (Inr (), db1)"
    and s2: "quizzes db1 = quizzes db"
    and s3: "get_quiz_questions quiz_name db1 = Inr ((old @ [d]))"
    and s4: "as_added (qtext, cs, label, expl) d" by blast
  have rest: "\<forall>(qtext, cs, label, expl) \<in> set new. length cs = 4 \<and> label \<in> set valid_labels"
    using Cons.prems(3) by simp
  from Cons.IH [of db1 "old @ [d]"] Cons.prems(1,2) s2 s3 rest
  obtain db' ds where
    t1: "add_questions quiz_name new db1 = (Inr (), db')"
    and t2: "get_quiz_questions quiz_name db' = Inr ((old @ [d]) @ ds)"
    and t3: "list_all2 as_added new ds" by auto
  have "add_questions quiz_name (a # new) db = (Inr (), db')"
    using s1 t1 a by simp
  moreover have "get_quiz_questions quiz_name db' = Inr (old @ (d # ds))"
    using t2 by simp
  moreover have "list_all2 as_added (a # new) (d # ds)"
    using s4 t3 a by simp
  ultimately show ?case by blast
qed

lemma get_quiz_info_Some:
  assumes "get_quiz_info quiz_name db = Some info"
  shows "\<exists>r rest. filter (\<lambda>qz. qz_name qz = quiz_name) (quizzes db) = r # rest
           \<and> info = info_of db r"
  using assms by (auto simp: get_quiz_info_def split: list.splits)

lemma no_questions_empty:
  assumes uniq: "distinct (map qz_name (quizzes db))"
    and info: "get_quiz_info quiz_name db = Some info"
    and zero: "info_question_count info = 0"
  shows "get_quiz_questions quiz_name db = Inr []"
proof -
  from get_quiz_info_Some [OF info] obtain r rest
    where f: "filter (\<lambda>qz. qz_name qz = quiz_name) (quizzes db) = r # rest"
      and i: "info = info_of db r" by blast
  from filter_name_unique [OF uniq f] have rest: "rest = []" by simp
  from zero i have none: "filter (\<lambda>q. q_quiz_id q = qz_id r) (questions db) = []"
    by (simp add: info_of_def)
  have "filter (\<lambda>qz. q_quiz_id q = qz_id qz \<and> qz_name qz = quiz_name) (quizzes db) = []"
    if q: "q \<in> set (questions db)" for q
  proof (rule ccontr)
    assume "filter (\<lambda>qz. q_quiz_id q = qz_id qz \<and> qz_name qz = quiz_name) (quizzes db) \<noteq> []"
    then obtain qz where qz: "qz \<in> set (quizzes db)" "q_quiz_id q = qz_id qz" "qz_name qz = quiz_name"
      by (auto simp: filter_empty_conv)
    then have "qz \<in> set (filter (\<lambda>qz. qz_name qz = quiz_name) (quizzes db))" by simp
    with f rest have "qz = r" by simp
    with qz(2) q have "q \<in> set (filter (\<lambda>q. q_quiz_id q = qz_id r) (questions db))" by simp
    with none show False by simp
  qed
  then have "select_questions quiz_name db = []"
    by (simp add: select_questions_def concat_map_nil cong: map_cong)
  then show ?thesis by (simp add: get_quiz_questions_def)
qed

text \<open>
  C4. Round trip. In a store whose quiz names are distinct (the UNIQUE constraint), for a
  quiz that exists and any sequence of questions with four choices and a label among
  a, b, c, d: if the quiz has no questions, \<^verbatim>\<open>get_quiz_questions\<close> returns the empty
  list and no error; and adding the questions one after the other succeeds, after which
  \<^verbatim>\<open>get_quiz_questions\<close> returns what it returned before followed by one dictionary
  for each added question, in the order added, each with the text, the four choices,
  the label and the explanation that were added.
\<close>

theorem add_then_get_quiz_questions:
  assumes uniq: "distinct (map qz_name (quizzes db))"
    and info: "get_quiz_info quiz_name db = Some info"
    and valid: "\<forall>(qtext, cs, label, expl) \<in> set new. length cs = 4 \<and> label \<in> set valid_labels"
  shows "(info_question_count info = 0 \<longrightarrow> get_quiz_questions quiz_name db = Inr [])
       \<and> (\<forall>old. get_quiz_questions quiz_name db = Inr old \<longrightarrow>
            (\<exists>db' ds. add_questions quiz_name new db = (Inr (), db')
               \<and> get_quiz_questions quiz_name db' = Inr (old @ ds)
               \<and> list_all2 as_added new ds))"
proof -
  from get_quiz_info_Some [OF info] obtain r rest
    where f: "filter (\<lambda>qz. qz_name qz = quiz_name) (quizzes db) = r # rest" by blast
  then have "r \<in> set (filter (\<lambda>qz. qz_name qz = quiz_name) (quizzes db))" by simp
  then have ex: "quiz_name \<in> set (map qz_name (quizzes db))" by auto
  show ?thesis
    using no_questions_empty [OF uniq info] add_questions_append [OF uniq ex valid] by blast
qed

theorem add_then_get_quiz_questions_witness:
  "get_quiz_questions ''geo'' geo_quiz = Inr []
   \<and> (\<exists>db' ds. add_questions ''geo''
          [(''Capital of France?'', [''Paris'', ''Rome'', ''Bern'', ''Oslo''], ''a'', []),
           (''Capital of Norway?'', [''Paris'', ''Rome'', ''Bern'', ''Oslo''], ''d'', ''north'')]
          geo_quiz = (Inr (), db')
        \<and> get_quiz_questions ''geo'' db' = Inr ds
        \<and> list_all2 as_added
          [(''Capital of France?'', [''Paris'', ''Rome'', ''Bern'', ''Oslo''], ''a'', []),
           (''Capital of Norway?'', [''Paris'', ''Rome'', ''Bern'', ''Oslo''], ''d'', ''north'')] ds)"
proof -
  let ?new = "[(''Capital of France?'', [''Paris'', ''Rome'', ''Bern'', ''Oslo''], ''a'', []),
           (''Capital of Norway?'', [''Paris'', ''Rome'', ''Bern'', ''Oslo''], ''d'', ''north'')]"
  let ?info = "\<lparr>info_name = ''geo'', info_title = ''Geography'', info_description = Some [],
               info_question_count = 0\<rparr>"
  have u: "distinct (map qz_name (quizzes geo_quiz))" by (simp add: geo_quiz_eq)
  have i: "get_quiz_info ''geo'' geo_quiz = Some ?info"
    by (simp add: geo_quiz_eq get_quiz_info_def info_of_def)
  have v: "\<forall>(qtext, cs, label, expl) \<in> set ?new. length cs = 4 \<and> label \<in> set valid_labels"
    by (simp add: valid_labels_def)
  note t = add_then_get_quiz_questions [OF u i v]
  have z: "info_question_count ?info = 0" by simp
  from t z have e: "get_quiz_questions ''geo'' geo_quiz = Inr []" by blast
  from t e have "\<exists>db' ds. add_questions ''geo'' ?new geo_quiz = (Inr (), db')
               \<and> get_quiz_questions ''geo'' db' = Inr ([] @ ds)
               \<and> list_all2 as_added ?new ds" by blast
  then have x: "\<exists>db' ds. add_questions ''geo'' ?new geo_quiz = (Inr (), db')
               \<and> get_quiz_questions ''geo'' db' = Inr ds
               \<and> list_all2 as_added ?new ds" by (simp only: append_Nil)
  from e x show ?thesis by (rule conjI)
qed

section \<open>Properties of the quiz runner\<close>

subsection \<open>One question\<close>

lemma print_choices_four:
  "length cs = 4 \<Longrightarrow> \<exists>out'. print_choices 0 cs out = (Inr (), out')"
proof -
  assume "length cs = 4"
  then obtain a b c d where cs: "cs = [a, b, c, d]"
    by (cases cs; simp; cases "tl cs"; simp; cases "tl (tl cs)"; simp; cases "tl (tl (tl cs))"; simp)
  show ?thesis by (simp add: cs chr_def)
qed

lemma ord_label:
  "a \<in> set valid_labels \<Longrightarrow> \<exists>code. ord a = Inr code \<and> 97 \<le> code \<and> code \<le> 100"
  by (auto simp: valid_labels_def ord_def)

lemma grade_answered:
  assumes wf: "well_formed q" and lab: "a \<in> set valid_labels"
  shows "\<exists>out. grade q self a \<lparr>stdin = e # ins, stdout = o1\<rparr>
           = (Inr True,
              (if ord a = Inr (97 + correct q) then self\<lparr>self_score := self_score self + 1\<rparr> else self),
              \<lparr>stdin = ins, stdout = out\<rparr>)"
proof -
  from ord_label [OF lab] obtain code where c: "ord a = Inr code" by blast
  show ?thesis
  proof (cases "code - 97 = correct q")
    case True
    then have "ord a = Inr (97 + correct q)" using c by simp
    then show ?thesis using True c
      by (simp add: grade_def input_line_def)
  next
    case False
    then have n: "ord a \<noteq> Inr (97 + correct q)" using c by auto
    from wf have "\<exists>l. chr (97 + correct q) = Inr l" by (simp add: chr_def well_formed_def)
    moreover from wf have "\<exists>ch. getitem (choices q) (correct q) = Inr ch"
      by (simp add: getitem_def well_formed_def)
    ultimately show ?thesis using False c n
      by (auto simp: grade_def input_line_def)
  qed
qed

lemma answer_loop_junk:
  assumes "\<forall>l \<in> set junk. \<not> decisive l"
  shows "\<exists>out. answer_loop q self (junk @ ls) o1 = answer_loop q self ls out"
  using assms
proof (induction junk arbitrary: o1)
  case Nil
  then show ?case by auto
next
  case (Cons l junk)
  then have nd: "\<not> decisive l" and rest: "\<forall>l \<in> set junk. \<not> decisive l" by auto
  from Cons.IH [OF rest] obtain out where
    "answer_loop q self (junk @ ls) ((o1 @ [Prompt_answer]) @ [Invalid_msg]) = answer_loop q self ls out"
    by blast
  then show ?case using nd by (auto simp: decisive_def Let_def)
qed

lemma ask_question_answered:
  assumes wf: "well_formed q" and junk: "\<forall>l \<in> set junk. \<not> decisive l"
    and lab: "lower (strip a) \<in> set valid_labels"
  shows "\<exists>out. ask_question num q self \<lparr>stdin = junk @ a # e # ins, stdout = o1\<rparr>
           = (Inr True,
              (if matches q a then self\<lparr>self_score := self_score self + 1\<rparr> else self),
              \<lparr>stdin = ins, stdout = out\<rparr>)"
proof -
  from wf have "length (choices q) = 4" by (simp add: well_formed_def)
  from print_choices_four [OF this] obtain o2 where
    p: "print_choices 0 (choices q) (o1 @ [Question_header num (self_total self) (question q)]) = (Inr (), o2)"
    by blast
  from answer_loop_junk [OF junk] obtain o3 where
    j: "answer_loop q self (junk @ a # e # ins) o2 = answer_loop q self (a # e # ins) o3" by blast
  have nq: "lower (strip a) \<noteq> ''quit''" using lab by (auto simp: valid_labels_def)
  from grade_answered [OF wf lab] obtain o4 where
    g: "grade q self (lower (strip a)) \<lparr>stdin = e # ins, stdout = o3 @ [Prompt_answer]\<rparr>
         = (Inr True,
            (if ord (lower (strip a)) = Inr (97 + correct q)
             then self\<lparr>self_score := self_score self + 1\<rparr> else self),
            \<lparr>stdin = ins, stdout = o4\<rparr>)" by blast
  have "answer_loop q self (a # e # ins) o3
        = (Inr True, (if matches q a then self\<lparr>self_score := self_score self + 1\<rparr> else self),
            \<lparr>stdin = ins, stdout = o4\<rparr>)"
    using nq lab g by (simp add: Let_def matches_def)
  then show ?thesis using p j by (simp add: ask_question_def)
qed

lemma ask_question_quit:
  assumes wf: "well_formed q" and junk: "\<forall>l \<in> set junk. \<not> decisive l"
    and quit: "lower (strip l) = ''quit''"
  shows "\<exists>out. ask_question num q self \<lparr>stdin = junk @ l # ins, stdout = o1\<rparr>
           = (Inr False, self, \<lparr>stdin = ins, stdout = out\<rparr>)"
proof -
  from wf have "length (choices q) = 4" by (simp add: well_formed_def)
  from print_choices_four [OF this] obtain o2 where
    p: "print_choices 0 (choices q) (o1 @ [Question_header num (self_total self) (question q)]) = (Inr (), o2)"
    by blast
  from answer_loop_junk [OF junk] obtain o3 where
    j: "answer_loop q self (junk @ l # ins) o2 = answer_loop q self (l # ins) o3" by blast
  have "answer_loop q self (l # ins) o3 = (Inr False, self, \<lparr>stdin = ins, stdout = o3 @ [Prompt_answer]\<rparr>)"
    using quit by (simp add: Let_def)
  then show ?thesis using p j by (simp add: ask_question_def)
qed

lemma ask_questions_script:
  assumes "list_all well_formed qs" and "length groups = length qs"
    and "list_all valid_group groups"
  shows "\<exists>out. ask_questions i (qs @ later) self \<lparr>stdin = typed groups @ ins, stdout = o1\<rparr>
           = ask_questions (i + length qs) later
               (self\<lparr>self_score := self_score self + right_answers qs (answers_of groups)\<rparr>)
               \<lparr>stdin = ins, stdout = out\<rparr>"
  using assms
proof (induction qs arbitrary: groups i self o1)
  case Nil
  then show ?case by (auto simp: typed_def right_answers_def)
next
  case (Cons q qs)
  from Cons.prems(2) obtain g gs where groups: "groups = g # gs" by (cases groups) auto
  obtain junk a e where g: "g = (junk, a, e)" by (cases g) auto
  from Cons.prems groups g have wf: "well_formed q" and wfs: "list_all well_formed qs"
    and len: "length gs = length qs" and vs: "list_all valid_group gs"
    and junk: "\<forall>l \<in> set junk. \<not> decisive l" and lab: "lower (strip a) \<in> set valid_labels"
    by (auto simp: valid_group_def list_all_iff)
  let ?self1 = "if matches q a then self\<lparr>self_score := self_score self + 1\<rparr> else self"
  from ask_question_answered [OF wf junk lab, of i self e "typed gs @ ins" o1]
  obtain o2 where
    step: "ask_question i q self \<lparr>stdin = junk @ a # e # typed gs @ ins, stdout = o1\<rparr>
             = (Inr True, ?self1, \<lparr>stdin = typed gs @ ins, stdout = o2\<rparr>)" by blast
  from Cons.IH [OF wfs len vs, of "Suc i" ?self1 o2]
  obtain o3 where
    rest: "ask_questions (Suc i) (qs @ later) ?self1 \<lparr>stdin = typed gs @ ins, stdout = o2\<rparr>
             = ask_questions (Suc i + length qs) later
                 (?self1\<lparr>self_score := self_score ?self1 + right_answers qs (answers_of gs)\<rparr>)
                 \<lparr>stdin = ins, stdout = o3\<rparr>" by blast
  have t: "typed groups @ ins = junk @ a # e # typed gs @ ins"
    by (simp add: groups g typed_def)
  have s: "?self1\<lparr>self_score := self_score ?self1 + right_answers qs (answers_of gs)\<rparr>
           = self\<lparr>self_score := self_score self + right_answers (q # qs) (answers_of groups)\<rparr>"
    by (simp add: groups g right_answers_def answers_of_def)
  have "ask_questions i ((q # qs) @ later) self \<lparr>stdin = typed groups @ ins, stdout = o1\<rparr>
          = ask_questions (i + length (q # qs)) later
              (self\<lparr>self_score := self_score self + right_answers (q # qs) (answers_of groups)\<rparr>)
              \<lparr>stdin = ins, stdout = o3\<rparr>"
    using step rest by (simp add: t s)
  then show ?case by blast
qed

lemma show_results_total:
  assumes "self_total self \<noteq> 0"
  shows "\<exists>p. percentage (self_score self) (self_total self) = Inr p
           \<and> p = float_round (float_round (of_nat (self_score self) / of_nat (self_total self)) * 100)
           \<and> show_results self t
               = (Inr (), t\<lparr>stdout := stdout t @
                    [Score_line (self_score self) (self_total self) (format_1f p),
                     Rating_line (rate p)]\<rparr>)"
  using assms by (simp add: show_results_def percentage_def)

lemma run_nonempty:
  assumes "lists h (self_questions self) \<noteq> []"
  shows "\<exists>h2. run rnd shuffle self h t
           = (case ask_questions 1 (asked_order rnd shuffle (lists h (self_questions self))) self
                     (t\<lparr>stdout := stdout t @ [Banner (self_title self) (self_total self)]\<rparr>) of
                (Inl e, self', t') \<Rightarrow> (Inl e, self', h2, t')
              | (Inr _, self', t') \<Rightarrow>
                  (case show_results self' t' of (r, t'') \<Rightarrow> (r, self', h2, t'')))"
  using assms
  by (cases shuffle) (auto simp: run_def list_copy_def random_shuffle_def asked_order_def Let_def)

subsection \<open>What a session leaves unchanged\<close>

lemma print_choices_error:
  "print_choices i cs out = (Inl e, out') \<Longrightarrow> e \<noteq> ZeroDivisionError"
  by (induction i cs out rule: print_choices.induct) (auto simp: chr_def split: if_splits)

lemma grade_frame:
  assumes "grade q self a t = (r, self', t')"
  shows "self_name self' = self_name self \<and> self_title self' = self_title self
       \<and> self_questions self' = self_questions self \<and> self_total self' = self_total self
       \<and> self_score self \<le> self_score self' \<and> self_score self' \<le> self_score self + 1
       \<and> r \<noteq> Inl ZeroDivisionError"
  using assms
  by (auto simp: grade_def ord_def chr_def getitem_def input_line_def Let_def
      split: sum.splits if_splits list.splits prod.splits)

lemma answer_loop_frame:
  assumes "answer_loop q self ins out = (r, self', t')"
  shows "self_name self' = self_name self \<and> self_title self' = self_title self
       \<and> self_questions self' = self_questions self \<and> self_total self' = self_total self
       \<and> self_score self \<le> self_score self' \<and> self_score self' \<le> self_score self + 1
       \<and> r \<noteq> Inl ZeroDivisionError"
  using assms
proof (induction ins arbitrary: out)
  case Nil
  then show ?case by auto
next
  case (Cons line rest)
  show ?case
  proof (cases "lower (strip line) = ''quit''")
    case True
    with Cons.prems show ?thesis by (auto simp: Let_def)
  next
    case nq: False
    show ?thesis
    proof (cases "lower (strip line) \<in> set valid_labels")
      case True
      with nq Cons.prems
      have "grade q self (lower (strip line)) \<lparr>stdin = rest, stdout = out @ [Prompt_answer]\<rparr>
              = (r, self', t')" by (simp add: Let_def)
      from grade_frame [OF this] show ?thesis .
    next
      case False
      with nq Cons.prems
      have "answer_loop q self rest ((out @ [Prompt_answer]) @ [Invalid_msg]) = (r, self', t')"
        by (simp add: Let_def)
      from Cons.IH [OF this] show ?thesis .
    qed
  qed
qed

lemma ask_question_frame:
  assumes "ask_question num q self t = (r, self', t')"
  shows "self_name self' = self_name self \<and> self_title self' = self_title self
       \<and> self_questions self' = self_questions self \<and> self_total self' = self_total self
       \<and> self_score self \<le> self_score self' \<and> self_score self' \<le> self_score self + 1
       \<and> r \<noteq> Inl ZeroDivisionError"
proof (cases "print_choices 0 (choices q)
                (stdout t @ [Question_header num (self_total self) (question q)])")
  case (Pair pr out)
  show ?thesis
  proof (cases pr)
    case (Inl e)
    with Pair assms print_choices_error [of 0 "choices q" _ e out]
    show ?thesis by (auto simp: ask_question_def)
  next
    case (Inr u)
    with Pair assms have "answer_loop q self (stdin t) out = (r, self', t')"
      by (simp add: ask_question_def)
    from answer_loop_frame [OF this] show ?thesis .
  qed
qed

lemma ask_questions_frame:
  assumes "ask_questions i qs self t = (r, self', t')"
  shows "self_name self' = self_name self \<and> self_title self' = self_title self
       \<and> self_questions self' = self_questions self \<and> self_total self' = self_total self
       \<and> self_score self \<le> self_score self' \<and> self_score self' \<le> self_score self + length qs
       \<and> r \<noteq> Inl ZeroDivisionError"
  using assms
proof (induction qs arbitrary: i self t)
  case Nil
  then show ?case by auto
next
  case (Cons q qs)
  obtain r1 self1 t1 where a: "ask_question i q self t = (r1, self1, t1)"
    by (cases "ask_question i q self t") auto
  note f = ask_question_frame [OF a]
  show ?case
  proof (cases r1)
    case (Inl e)
    with a Cons.prems f show ?thesis by auto
  next
    case (Inr b)
    show ?thesis
    proof (cases b)
      case True
      with Inr a Cons.prems have "ask_questions (Suc i) qs self1 t1 = (r, self', t')" by simp
      from Cons.IH [OF this] f show ?thesis by auto
    next
      case False
      with Inr a Cons.prems f show ?thesis by auto
    qed
  qed
qed

subsection \<open>Quiz.run\<close>

lemma run_keeps:
  assumes "self_questions self < allocated h"
    and "run rnd shuffle self h t = (r, self', h', t')"
  shows "self_questions self' = self_questions self
       \<and> lists h' (self_questions self') = lists h (self_questions self)
       \<and> self_total self' = self_total self"
proof (cases "lists h (self_questions self) = []")
  case True
  with assms(2) show ?thesis by (auto simp: run_def)
next
  case False
  define h2 where "h2 = (if shuffle then random_shuffle rnd (allocated h) (snd (list_copy (self_questions self) h))
                         else snd (list_copy (self_questions self) h))"
  have keep: "lists h2 (self_questions self) = lists h (self_questions self)"
    using assms(1) by (simp add: h2_def list_copy_def random_shuffle_def)
  obtain r1 self1 t1 where a:
    "ask_questions 1 (lists h2 (allocated h)) self
       (t\<lparr>stdout := stdout t @ [Banner (self_title self) (self_total self)]\<rparr>) = (r1, self1, t1)"
    by (metis prod_cases3)
  note f = ask_questions_frame [OF a]
  have "self' = self1 \<and> h' = h2"
    using False assms(2) a
    by (auto simp: run_def list_copy_def h2_def Let_def split: sum.splits prod.splits)
  with f keep show ?thesis by simp
qed

lemma run_empty:
  assumes "lists h (self_questions self) = []"
  shows "run rnd shuffle self h t
           = (Inr (), self, h, t\<lparr>stdout := stdout t @ [No_questions (self_name self)]\<rparr>)"
  using assms by (simp add: run_def)

lemma run_no_zero_division:
  assumes "self_total self = length (lists h (self_questions self))"
  shows "fst (run rnd shuffle self h t) \<noteq> Inl ZeroDivisionError"
proof (cases "lists h (self_questions self) = []")
  case True
  then show ?thesis by (simp add: run_def)
next
  case False
  from run_nonempty [OF False, of rnd shuffle t] obtain h2 where
    r: "run rnd shuffle self h t
           = (case ask_questions 1 (asked_order rnd shuffle (lists h (self_questions self))) self
                     (t\<lparr>stdout := stdout t @ [Banner (self_title self) (self_total self)]\<rparr>) of
                (Inl e, self', t') \<Rightarrow> (Inl e, self', h2, t')
              | (Inr _, self', t') \<Rightarrow>
                  (case show_results self' t' of (r, t'') \<Rightarrow> (r, self', h2, t'')))" by blast
  obtain r1 self1 t1 where a:
    "ask_questions 1 (asked_order rnd shuffle (lists h (self_questions self))) self
       (t\<lparr>stdout := stdout t @ [Banner (self_title self) (self_total self)]\<rparr>) = (r1, self1, t1)"
    by (metis prod_cases3)
  note f = ask_questions_frame [OF a]
  show ?thesis
  proof (cases r1)
    case (Inl e)
    with r a f show ?thesis by auto
  next
    case (Inr u)
    from f assms False have "self_total self1 \<noteq> 0" by simp
    from show_results_total [OF this, of t1] obtain p where
      "show_results self1 t1 = (Inr (), t1\<lparr>stdout := stdout t1 @
                    [Score_line (self_score self1) (self_total self1) (format_1f p),
                     Rating_line (rate p)]\<rparr>)" by blast
    with r a Inr show ?thesis by simp
  qed
qed

text \<open>
  C7. A quiz constructed over a list without questions has \<open>total = 0\<close>; its \<^verbatim>\<open>run\<close>
  prints \<^verbatim>\<open>Quiz '<name>' has no questions!\<close> and returns at once, with the quiz, the heap
  and the input untouched. For every constructed quiz, \<^verbatim>\<open>run\<close> never ends in
  ZeroDivisionError: the division of \<^verbatim>\<open>_show_results\<close> is only reached with a total that
  is not 0.
\<close>

theorem run_without_questions:
  "(self_total (Quiz_init name title qs h) = 0 \<longrightarrow>
      run rnd shuffle (Quiz_init name title qs h) h t
        = (Inr (), Quiz_init name title qs h, h, t\<lparr>stdout := stdout t @ [No_questions name]\<rparr>))
   \<and> fst (run rnd shuffle (Quiz_init name title qs h) h t) \<noteq> Inl ZeroDivisionError"
proof
  show "self_total (Quiz_init name title qs h) = 0 \<longrightarrow>
      run rnd shuffle (Quiz_init name title qs h) h t
        = (Inr (), Quiz_init name title qs h, h, t\<lparr>stdout := stdout t @ [No_questions name]\<rparr>)"
  proof
    assume "self_total (Quiz_init name title qs h) = 0"
    then have "lists h (self_questions (Quiz_init name title qs h)) = []"
      by (simp add: Quiz_init_def)
    from run_empty [OF this] show "run rnd shuffle (Quiz_init name title qs h) h t
        = (Inr (), Quiz_init name title qs h, h, t\<lparr>stdout := stdout t @ [No_questions name]\<rparr>)"
      by (simp add: Quiz_init_def)
  qed
next
  have "self_total (Quiz_init name title qs h)
          = length (lists h (self_questions (Quiz_init name title qs h)))"
    by (simp add: Quiz_init_def)
  from run_no_zero_division [OF this]
  show "fst (run rnd shuffle (Quiz_init name title qs h) h t) \<noteq> Inl ZeroDivisionError" .
qed

theorem run_without_questions_witness:
  "run (\<lambda>xs. xs) False (Quiz_init ''empty'' ''Empty'' 0 empty_heap) empty_heap
       \<lparr>stdin = [''a''], stdout = []\<rparr>
     = (Inr (), Quiz_init ''empty'' ''Empty'' 0 empty_heap, empty_heap,
        \<lparr>stdin = [''a''], stdout = [No_questions ''empty'']\<rparr>)"
proof -
  have z: "self_total (Quiz_init ''empty'' ''Empty'' 0 empty_heap) = 0"
    by (simp add: Quiz_init_def empty_heap_def)
  from run_without_questions [of "''empty''" "''Empty''" 0 empty_heap "\<lambda>xs. xs" False
      "\<lparr>stdin = [''a''], stdout = []\<rparr>"] z
  show ?thesis by simp
qed

text \<open>
  C10. \<^verbatim>\<open>run\<close> never writes the list object the quiz holds: whatever the outcome, with
  or without shuffling, the quiz still refers to the list passed at construction, that
  list holds the same questions in the same order, and \<open>total\<close> is its length. (The
  shuffle permutes the copy, a list object allocated by \<^verbatim>\<open>copy()\<close>.)
\<close>

theorem run_keeps_questions:
  assumes "qs < allocated h"
    and "run rnd shuffle (Quiz_init name title qs h) h t = (r, self', h', t')"
  shows "self_questions self' = qs \<and> lists h' qs = lists h qs
       \<and> self_total self' = length (lists h qs)"
proof -
  have "self_questions (Quiz_init name title qs h) < allocated h"
    using assms(1) by (simp add: Quiz_init_def)
  from run_keeps [OF this assms(2)] show ?thesis by (auto simp: Quiz_init_def)
qed

theorem run_keeps_questions_witness:
  "\<exists>r self' h' t'.
     run rev True (Quiz_init ''geo'' ''Geography'' 0 geo_heap) geo_heap
       \<lparr>stdin = [''c'', [], ''quit''], stdout = []\<rparr> = (r, self', h', t')
     \<and> self_questions self' = 0 \<and> lists h' 0 = geo_questions \<and> self_total self' = 3"
proof -
  obtain r self' h' t' where run:
    "run rev True (Quiz_init ''geo'' ''Geography'' 0 geo_heap) geo_heap
       \<lparr>stdin = [''c'', [], ''quit''], stdout = []\<rparr> = (r, self', h', t')"
    by (metis prod_cases4)
  have a: "(0::nat) < allocated geo_heap" by (simp add: geo_heap_def)
  from run_keeps_questions [OF a run]
  have "self_questions self' = 0 \<and> lists h' 0 = geo_questions \<and> self_total self' = 3"
    by (simp add: geo_heap_def geo_questions_def)
  with run show ?thesis by blast
qed

subsection \<open>Scores\<close>

lemma run_all_answered:
  assumes nonempty: "lists h qs \<noteq> []"
    and wf: "list_all well_formed (asked_order rnd shuffle (lists h qs))"
    and len: "length groups = length (asked_order rnd shuffle (lists h qs))"
    and valid: "list_all valid_group groups"
  shows "\<exists>self' h' out p.
           run rnd shuffle (Quiz_init name title qs h) h \<lparr>stdin = typed groups @ ins, stdout = o1\<rparr>
             = (Inr (), self', h',
                \<lparr>stdin = ins,
                 stdout = out @ [Score_line (self_score self') (length (lists h qs)) (format_1f p),
                                 Rating_line (rate p)]\<rparr>)
         \<and> self_score self' = right_answers (asked_order rnd shuffle (lists h qs)) (answers_of groups)
         \<and> percentage (self_score self') (length (lists h qs)) = Inr p"
proof -
  let ?self = "Quiz_init name title qs h"
  let ?asked = "asked_order rnd shuffle (lists h qs)"
  let ?s = "right_answers ?asked (answers_of groups)"
  let ?self' = "?self\<lparr>self_score := ?s\<rparr>"
  have q: "self_questions ?self = qs" "self_title ?self = title"
    "self_total ?self = length (lists h qs)" "self_score ?self = 0"
    by (simp_all add: Quiz_init_def)
  from nonempty q have ne: "lists h (self_questions ?self) \<noteq> []" by simp
  from run_nonempty [OF ne, of rnd shuffle "\<lparr>stdin = typed groups @ ins, stdout = o1\<rparr>"]
  obtain h2 where r:
    "run rnd shuffle ?self h \<lparr>stdin = typed groups @ ins, stdout = o1\<rparr>
       = (case ask_questions 1 ?asked ?self
                 \<lparr>stdin = typed groups @ ins,
                  stdout = o1 @ [Banner title (length (lists h qs))]\<rparr> of
            (Inl e, self', t') \<Rightarrow> (Inl e, self', h2, t')
          | (Inr _, self', t') \<Rightarrow>
              (case show_results self' t' of (r, t'') \<Rightarrow> (r, self', h2, t'')))"
    by (auto simp: q)
  from ask_questions_script [OF wf len valid, of 1 "[]" ?self ins
      "o1 @ [Banner title (length (lists h qs))]"]
  obtain o2 where a:
    "ask_questions 1 ?asked ?self
        \<lparr>stdin = typed groups @ ins, stdout = o1 @ [Banner title (length (lists h qs))]\<rparr>
       = (Inr (), ?self', \<lparr>stdin = ins, stdout = o2\<rparr>)"
    by (auto simp: q)
  have "self_total ?self' \<noteq> 0" using nonempty by (simp add: q)
  from show_results_total [OF this, of "\<lparr>stdin = ins, stdout = o2\<rparr>"] obtain p where
    p: "percentage (self_score ?self') (self_total ?self') = Inr p"
    and sh: "show_results ?self' \<lparr>stdin = ins, stdout = o2\<rparr>
               = (Inr (), \<lparr>stdin = ins, stdout = o2 @
                    [Score_line (self_score ?self') (self_total ?self') (format_1f p),
                     Rating_line (rate p)]\<rparr>)" by auto
  have "run rnd shuffle ?self h \<lparr>stdin = typed groups @ ins, stdout = o1\<rparr>
          = (Inr (), ?self', h2,
             \<lparr>stdin = ins,
              stdout = o2 @ [Score_line (self_score ?self') (length (lists h qs)) (format_1f p),
                             Rating_line (rate p)]\<rparr>)"
    using r a sh by (simp add: q)
  moreover have "self_score ?self' = ?s" by simp
  moreover have "percentage (self_score ?self') (length (lists h qs)) = Inr p"
    using p by (simp add: q)
  ultimately show ?thesis by blast
qed

lemma run_quit:
  assumes nonempty: "lists h qs \<noteq> []"
    and order: "asked_order rnd shuffle (lists h qs) = answered @ q # remaining"
    and wf: "list_all well_formed (answered @ [q])"
    and len: "length groups = length answered"
    and valid: "list_all valid_group groups"
    and junk: "list_all (\<lambda>l. \<not> decisive l) junk"
    and quit: "lower (strip l) = ''quit''"
  shows "\<exists>self' h' out p.
           run rnd shuffle (Quiz_init name title qs h) h
               \<lparr>stdin = typed groups @ junk @ l # ins, stdout = o1\<rparr>
             = (Inr (), self', h',
                \<lparr>stdin = ins,
                 stdout = out @ [Score_line (self_score self') (length (lists h qs)) (format_1f p),
                                 Rating_line (rate p)]\<rparr>)
         \<and> self_score self' = right_answers answered (answers_of groups)
         \<and> self_total self' = length (lists h qs)
         \<and> percentage (self_score self') (length (lists h qs)) = Inr p
         \<and> p = float_round
                 (float_round (of_nat (self_score self') / of_nat (length (lists h qs))) * 100)"
proof -
  let ?self = "Quiz_init name title qs h"
  let ?s = "right_answers answered (answers_of groups)"
  let ?self' = "?self\<lparr>self_score := ?s\<rparr>"
  let ?n = "length (lists h qs)"
  have q: "self_questions ?self = qs" "self_title ?self = title"
    "self_total ?self = ?n" "self_score ?self = 0"
    by (simp_all add: Quiz_init_def)
  from nonempty q have ne: "lists h (self_questions ?self) \<noteq> []" by simp
  from wf have wfa: "list_all well_formed answered" and wfq: "well_formed q" by simp_all
  from junk have junk': "\<forall>l \<in> set junk. \<not> decisive l" by (simp add: list_all_iff)
  from run_nonempty [OF ne, of rnd shuffle "\<lparr>stdin = typed groups @ junk @ l # ins, stdout = o1\<rparr>"]
  obtain h2 where r:
    "run rnd shuffle ?self h \<lparr>stdin = typed groups @ junk @ l # ins, stdout = o1\<rparr>
       = (case ask_questions 1 (answered @ q # remaining) ?self
                 \<lparr>stdin = typed groups @ junk @ l # ins,
                  stdout = o1 @ [Banner title ?n]\<rparr> of
            (Inl e, self', t') \<Rightarrow> (Inl e, self', h2, t')
          | (Inr _, self', t') \<Rightarrow>
              (case show_results self' t' of (r, t'') \<Rightarrow> (r, self', h2, t'')))"
    by (auto simp: q order)
  from ask_questions_script [OF wfa len valid, of 1 "q # remaining" ?self "junk @ l # ins"
      "o1 @ [Banner title ?n]"]
  obtain o2 where a:
    "ask_questions 1 (answered @ q # remaining) ?self
        \<lparr>stdin = typed groups @ junk @ l # ins, stdout = o1 @ [Banner title ?n]\<rparr>
       = ask_questions (1 + length answered) (q # remaining) ?self'
           \<lparr>stdin = junk @ l # ins, stdout = o2\<rparr>"
    by (auto simp: q)
  from ask_question_quit [OF wfq junk' quit, of "1 + length answered" ?self' ins o2]
  obtain o3 where b:
    "ask_question (1 + length answered) q ?self' \<lparr>stdin = junk @ l # ins, stdout = o2\<rparr>
       = (Inr False, ?self', \<lparr>stdin = ins, stdout = o3\<rparr>)" by blast
  have c: "ask_questions 1 (answered @ q # remaining) ?self
        \<lparr>stdin = typed groups @ junk @ l # ins, stdout = o1 @ [Banner title ?n]\<rparr>
       = (Inr (), ?self', \<lparr>stdin = ins, stdout = o3\<rparr>)"
    using a b by simp
  have "self_total ?self' \<noteq> 0" using nonempty by (simp add: q)
  from show_results_total [OF this, of "\<lparr>stdin = ins, stdout = o3\<rparr>"] obtain p where
    p: "percentage (self_score ?self') (self_total ?self') = Inr p"
    and pf: "p = float_round (float_round (of_nat (self_score ?self') / of_nat (self_total ?self')) * 100)"
    and sh: "show_results ?self' \<lparr>stdin = ins, stdout = o3\<rparr>
               = (Inr (), \<lparr>stdin = ins, stdout = o3 @
                    [Score_line (self_score ?self') (self_total ?self') (format_1f p),
                     Rating_line (rate p)]\<rparr>)" by auto
  have "run rnd shuffle ?self h \<lparr>stdin = typed groups @ junk @ l # ins, stdout = o1\<rparr>
          = (Inr (), ?self', h2,
             \<lparr>stdin = ins,
              stdout = o3 @ [Score_line (self_score ?self') ?n (format_1f p),
                             Rating_line (rate p)]\<rparr>)"
    using r c sh by (simp add: q)
  moreover have "self_score ?self' = ?s" by simp
  moreover have "self_total ?self' = ?n" by (simp add: q)
  moreover have "percentage (self_score ?self') ?n = Inr p"
    using p by (simp add: q)
  moreover have "p = float_round (float_round (of_nat (self_score ?self') / of_nat ?n) * 100)"
    using pf by (simp add: q)
  ultimately show ?thesis by blast
qed

subsection \<open>The scenarios, evaluated\<close>

lemma geo_well_formed: "list_all well_formed geo_questions"
  by (simp add: geo_questions_def well_formed_def)

lemma geo_lists: "lists geo_heap 0 = geo_questions"
  by (simp add: geo_heap_def)

lemma letter_lines:
  "valid_group ([], ''a'', [])" "valid_group ([], ''c'', [])" "valid_group ([''?''], '' B '', [])"
  "lower (strip ''QUIT'') = ''quit''"
  by code_simp+

lemma geo_scores:
  "right_answers geo_questions [''a'', ''a'', ''c''] = 2"
  "right_answers [hd geo_questions] [''a''] = 1"
  by code_simp+

lemma two_of_three:
  "percentage 2 3 = Inr (2345624805922133 / 35184372088832)"
  "format_1f (2345624805922133 / 35184372088832) = ''66.7''"
  "rate (2345624805922133 / 35184372088832) = Keep_studying"
  by code_simp+

lemma one_of_three:
  "percentage 1 3 = Inr (2345624805922133 / 70368744177664)"
  "format_1f (2345624805922133 / 70368744177664) = ''33.3''"
  "rate (2345624805922133 / 70368744177664) = Practice"
  by code_simp+

lemma more_scores:
  "right_answers (rev geo_questions) [''c'', '' B '', ''a''] = 3"
  "list_all (\<lambda>l. \<not> decisive l) [''x'']"
  "list_all well_formed (rev geo_questions)"
  "percentage 3 3 = Inr 100" "format_1f 100 = ''100.0''" "rate 100 = Excellent"
  "percentage 0 3 = Inr 0" "format_1f 0 = ''0.0''" "rate 0 = Practice"
  by code_simp+

lemma one_of_three_Suc:
  "percentage (Suc 0) 3 = Inr (2345624805922133 / 70368744177664)"
  using one_of_three(1) by simp

text \<open>
  C3. Each accepted letter is compared once with the label of the correct choice, and the
  score goes up by one exactly when they are equal. For a quiz constructed over a list
  that is not empty, with well-formed questions, when the user types for each question
  asked (after any rejected lines) a letter and then Enter: \<^verbatim>\<open>run\<close> returns normally,
  the score is the number of questions whose letter is their correct label, and the last
  two lines printed are the score out of the number of questions, with the percentage,
  and the rating of that percentage. Concretely, for three questions with correct labels
  a, b, c and the answers a, a, c the score is 2, the percentage is shown as 66.7 and the
  rating is that of the band from 60 (below 70).
\<close>

theorem answers_are_scored:
  assumes "lists h qs \<noteq> []"
    and "list_all well_formed (asked_order rnd shuffle (lists h qs))"
    and "length groups = length (asked_order rnd shuffle (lists h qs))"
    and "list_all valid_group groups"
  shows "(\<exists>self' h' out p.
           run rnd shuffle (Quiz_init name title qs h) h \<lparr>stdin = typed groups @ ins, stdout = o1\<rparr>
             = (Inr (), self', h',
                \<lparr>stdin = ins,
                 stdout = out @ [Score_line (self_score self') (length (lists h qs)) (format_1f p),
                                 Rating_line (rate p)]\<rparr>)
         \<and> self_score self' = right_answers (asked_order rnd shuffle (lists h qs)) (answers_of groups)
         \<and> percentage (self_score self') (length (lists h qs)) = Inr p)
       \<and> (\<exists>self' h' out.
           run rnd False (Quiz_init ''geo'' ''Geography'' 0 geo_heap) geo_heap
               \<lparr>stdin = [''a'', [], ''a'', [], ''c'', []], stdout = []\<rparr>
             = (Inr (), self', h',
                \<lparr>stdin = [], stdout = out @ [Score_line 2 3 ''66.7'', Rating_line Keep_studying]\<rparr>)
         \<and> self_score self' = 2)"
proof
  from run_all_answered [OF assms]
  show "\<exists>self' h' out p.
           run rnd shuffle (Quiz_init name title qs h) h \<lparr>stdin = typed groups @ ins, stdout = o1\<rparr>
             = (Inr (), self', h',
                \<lparr>stdin = ins,
                 stdout = out @ [Score_line (self_score self') (length (lists h qs)) (format_1f p),
                                 Rating_line (rate p)]\<rparr>)
         \<and> self_score self' = right_answers (asked_order rnd shuffle (lists h qs)) (answers_of groups)
         \<and> percentage (self_score self') (length (lists h qs)) = Inr p" .
next
  let ?groups = "[([], ''a'', []), ([], ''a'', []), ([], ''c'', [])]"
  have ne: "lists geo_heap 0 \<noteq> []" by (simp add: geo_lists geo_questions_def)
  have wf: "list_all well_formed (asked_order rnd False (lists geo_heap 0))"
    by (simp add: asked_order_def geo_lists geo_well_formed)
  have len: "length ?groups = length (asked_order rnd False (lists geo_heap 0))"
    by (simp add: asked_order_def geo_lists geo_questions_def)
  have valid: "list_all valid_group ?groups" by (simp add: letter_lines)
  from run_all_answered [OF ne wf len valid, of "''geo''" "''Geography''" "[]" "[]"]
  obtain self' h' out p where
    r: "run rnd False (Quiz_init ''geo'' ''Geography'' 0 geo_heap) geo_heap
          \<lparr>stdin = typed ?groups @ [], stdout = []\<rparr>
        = (Inr (), self', h',
           \<lparr>stdin = [],
            stdout = out @ [Score_line (self_score self') (length (lists geo_heap 0)) (format_1f p),
                            Rating_line (rate p)]\<rparr>)"
    and s: "self_score self' = right_answers (asked_order rnd False (lists geo_heap 0)) (answers_of ?groups)"
    and p: "percentage (self_score self') (length (lists geo_heap 0)) = Inr p" by blast
  have s2: "self_score self' = 2"
    using s by (simp add: asked_order_def geo_lists answers_of_def geo_scores)
  have n: "length (lists geo_heap 0) = 3" by (simp add: geo_lists geo_questions_def)
  from p s2 n have pv: "p = 2345624805922133 / 35184372088832" by (simp add: two_of_three)
  have ty: "typed ?groups @ [] = [''a'', [], ''a'', [], ''c'', []]" by (simp add: typed_def)
  from r have "run rnd False (Quiz_init ''geo'' ''Geography'' 0 geo_heap) geo_heap
               \<lparr>stdin = [''a'', [], ''a'', [], ''c'', []], stdout = []\<rparr>
             = (Inr (), self', h',
                \<lparr>stdin = [], stdout = out @ [Score_line 2 3 ''66.7'', Rating_line Keep_studying]\<rparr>)"
    unfolding ty s2 n pv two_of_three .
  with s2 show "\<exists>self' h' out.
           run rnd False (Quiz_init ''geo'' ''Geography'' 0 geo_heap) geo_heap
               \<lparr>stdin = [''a'', [], ''a'', [], ''c'', []], stdout = []\<rparr>
             = (Inr (), self', h',
                \<lparr>stdin = [], stdout = out @ [Score_line 2 3 ''66.7'', Rating_line Keep_studying]\<rparr>)
         \<and> self_score self' = 2" by blast
qed

theorem answers_are_scored_witness:
  "\<exists>self' h' out.
     run rev True (Quiz_init ''geo'' ''Geography'' 0 geo_heap) geo_heap
         \<lparr>stdin = [''c'', [], ''?'', '' B '', [], ''a'', []], stdout = []\<rparr>
       = (Inr (), self', h',
          \<lparr>stdin = [], stdout = out @ [Score_line 3 3 ''100.0'', Rating_line Excellent]\<rparr>)
     \<and> self_score self' = 3"
proof -
  let ?groups = "[([], ''c'', []), ([''?''], '' B '', []), ([], ''a'', [])]"
  have ne: "lists geo_heap 0 \<noteq> []" by (simp add: geo_lists geo_questions_def)
  have wf: "list_all well_formed (asked_order rev True (lists geo_heap 0))"
    by (simp add: asked_order_def geo_lists geo_well_formed)
  have len: "length ?groups = length (asked_order rev True (lists geo_heap 0))"
    by (simp add: asked_order_def geo_lists geo_questions_def)
  have valid: "list_all valid_group ?groups" by (simp add: letter_lines)
  from answers_are_scored [OF ne wf len valid, of "''geo''" "''Geography''" "[]" "[]"]
  obtain self' h' out p where
    r: "run rev True (Quiz_init ''geo'' ''Geography'' 0 geo_heap) geo_heap
          \<lparr>stdin = typed ?groups @ [], stdout = []\<rparr>
        = (Inr (), self', h',
           \<lparr>stdin = [],
            stdout = out @ [Score_line (self_score self') (length (lists geo_heap 0)) (format_1f p),
                            Rating_line (rate p)]\<rparr>)"
    and s: "self_score self' = right_answers (asked_order rev True (lists geo_heap 0)) (answers_of ?groups)"
    and p: "percentage (self_score self') (length (lists geo_heap 0)) = Inr p" by blast
  have s3: "self_score self' = 3"
    using s by (simp add: asked_order_def geo_lists answers_of_def more_scores)
  have n: "length (lists geo_heap 0) = 3" by (simp add: geo_lists geo_questions_def)
  from p s3 n have pv: "p = 100" by (simp add: more_scores)
  have ty: "typed ?groups @ [] = [''c'', [], ''?'', '' B '', [], ''a'', []]" by (simp add: typed_def)
  from r have "run rev True (Quiz_init ''geo'' ''Geography'' 0 geo_heap) geo_heap
         \<lparr>stdin = [''c'', [], ''?'', '' B '', [], ''a'', []], stdout = []\<rparr>
       = (Inr (), self', h',
          \<lparr>stdin = [], stdout = out @ [Score_line 3 3 ''100.0'', Rating_line Excellent]\<rparr>)"
    unfolding ty s3 n pv more_scores .
  with s3 show ?thesis by blast
qed

text \<open>
  C2. For a quiz constructed over a list that is not empty: when the user answers the
  first k questions asked and types \<^verbatim>\<open>quit\<close> (in any case, with spaces around) at
  question k + 1, \<^verbatim>\<open>run\<close> stops asking, the rest of the input is left unread, the
  score is the number of right answers among the k, \<open>total\<close> is the number of questions
  of the quiz, and the percentage printed is \<^verbatim>\<open>(score / total) * 100\<close> with that total.
  Concretely, for three questions, one right answer and then quit give 1 out of 3, shown
  as 33.3.
\<close>

theorem quit_keeps_total:
  assumes "lists h qs \<noteq> []"
    and "asked_order rnd shuffle (lists h qs) = answered @ q # remaining"
    and "list_all well_formed (answered @ [q])"
    and "length groups = length answered"
    and "list_all valid_group groups"
    and "list_all (\<lambda>l. \<not> decisive l) junk"
    and "lower (strip l) = ''quit''"
  shows "(\<exists>self' h' out p.
           run rnd shuffle (Quiz_init name title qs h) h
               \<lparr>stdin = typed groups @ junk @ l # ins, stdout = o1\<rparr>
             = (Inr (), self', h',
                \<lparr>stdin = ins,
                 stdout = out @ [Score_line (self_score self') (length (lists h qs)) (format_1f p),
                                 Rating_line (rate p)]\<rparr>)
         \<and> self_score self' = right_answers answered (answers_of groups)
         \<and> self_total self' = length (lists h qs)
         \<and> percentage (self_score self') (length (lists h qs)) = Inr p
         \<and> p = float_round
                 (float_round (of_nat (self_score self') / of_nat (length (lists h qs))) * 100))
       \<and> (\<exists>self' h' out.
           run rnd False (Quiz_init ''geo'' ''Geography'' 0 geo_heap) geo_heap
               \<lparr>stdin = [''a'', [], ''QUIT''], stdout = []\<rparr>
             = (Inr (), self', h',
                \<lparr>stdin = [], stdout = out @ [Score_line 1 3 ''33.3'', Rating_line Practice]\<rparr>)
         \<and> self_score self' = 1 \<and> self_total self' = 3)"
proof
  from run_quit [OF assms]
  show "\<exists>self' h' out p.
           run rnd shuffle (Quiz_init name title qs h) h
               \<lparr>stdin = typed groups @ junk @ l # ins, stdout = o1\<rparr>
             = (Inr (), self', h',
                \<lparr>stdin = ins,
                 stdout = out @ [Score_line (self_score self') (length (lists h qs)) (format_1f p),
                                 Rating_line (rate p)]\<rparr>)
         \<and> self_score self' = right_answers answered (answers_of groups)
         \<and> self_total self' = length (lists h qs)
         \<and> percentage (self_score self') (length (lists h qs)) = Inr p
         \<and> p = float_round
                 (float_round (of_nat (self_score self') / of_nat (length (lists h qs))) * 100)" .
next
  let ?groups = "[([], ''a'', [])]"
  have ne: "lists geo_heap 0 \<noteq> []" by (simp add: geo_lists geo_questions_def)
  have order: "asked_order rnd False (lists geo_heap 0)
                 = [hd geo_questions] @ hd (tl geo_questions) # tl (tl geo_questions)"
    by (simp add: asked_order_def geo_lists geo_questions_def)
  have wf: "list_all well_formed ([hd geo_questions] @ [hd (tl geo_questions)])"
    by (simp add: geo_questions_def well_formed_def)
  have len: "length ?groups = length [hd geo_questions]" by simp
  have valid: "list_all valid_group ?groups" by (simp add: letter_lines)
  have junk: "list_all (\<lambda>l. \<not> decisive l) []" by simp
  from run_quit [OF ne order wf len valid junk letter_lines(4), of "''geo''" "''Geography''" "[]" "[]"]
  obtain self' h' out p where
    r: "run rnd False (Quiz_init ''geo'' ''Geography'' 0 geo_heap) geo_heap
          \<lparr>stdin = typed ?groups @ [] @ ''QUIT'' # [], stdout = []\<rparr>
        = (Inr (), self', h',
           \<lparr>stdin = [],
            stdout = out @ [Score_line (self_score self') (length (lists geo_heap 0)) (format_1f p),
                            Rating_line (rate p)]\<rparr>)"
    and s: "self_score self' = right_answers [hd geo_questions] (answers_of ?groups)"
    and t: "self_total self' = length (lists geo_heap 0)"
    and p: "percentage (self_score self') (length (lists geo_heap 0)) = Inr p" by blast
  have s1: "self_score self' = 1" using s by (simp add: answers_of_def geo_scores)
  have n: "length (lists geo_heap 0) = 3" by (simp add: geo_lists geo_questions_def)
  from p s1 n have pv: "p = 2345624805922133 / 70368744177664" by (simp add: one_of_three_Suc)
  have ty: "typed ?groups @ [] @ ''QUIT'' # [] = [''a'', [], ''QUIT'']" by (simp add: typed_def)
  from r have "run rnd False (Quiz_init ''geo'' ''Geography'' 0 geo_heap) geo_heap
               \<lparr>stdin = [''a'', [], ''QUIT''], stdout = []\<rparr>
             = (Inr (), self', h',
                \<lparr>stdin = [], stdout = out @ [Score_line 1 3 ''33.3'', Rating_line Practice]\<rparr>)"
    unfolding ty s1 n pv one_of_three .
  with s1 t n show "\<exists>self' h' out.
           run rnd False (Quiz_init ''geo'' ''Geography'' 0 geo_heap) geo_heap
               \<lparr>stdin = [''a'', [], ''QUIT''], stdout = []\<rparr>
             = (Inr (), self', h',
                \<lparr>stdin = [], stdout = out @ [Score_line 1 3 ''33.3'', Rating_line Practice]\<rparr>)
         \<and> self_score self' = 1 \<and> self_total self' = 3" by auto
qed

theorem quit_keeps_total_witness:
  "\<exists>self' h' out.
     run rev True (Quiz_init ''geo'' ''Geography'' 0 geo_heap) geo_heap
         \<lparr>stdin = [''x'', ''QUIT'', ''a''], stdout = []\<rparr>
       = (Inr (), self', h',
          \<lparr>stdin = [''a''], stdout = out @ [Score_line 0 3 ''0.0'', Rating_line Practice]\<rparr>)
     \<and> self_score self' = 0 \<and> self_total self' = 3"
proof -
  let ?groups = "[] :: (string list \<times> string \<times> string) list"
  have ne: "lists geo_heap 0 \<noteq> []" by (simp add: geo_lists geo_questions_def)
  have order: "asked_order rev True (lists geo_heap 0)
                 = [] @ hd (rev geo_questions) # tl (rev geo_questions)"
    by (simp add: asked_order_def geo_lists geo_questions_def)
  have wf: "list_all well_formed ([] @ [hd (rev geo_questions)])"
    by (simp add: geo_questions_def well_formed_def)
  have len: "length ?groups = length ([] :: question_dict list)" by simp
  have valid: "list_all valid_group ?groups" by simp
  from quit_keeps_total [OF ne order wf len valid more_scores(2) letter_lines(4),
      of "''geo''" "''Geography''" "[''a'']" "[]"]
  obtain self' h' out p where
    r: "run rev True (Quiz_init ''geo'' ''Geography'' 0 geo_heap) geo_heap
          \<lparr>stdin = typed ?groups @ [''x''] @ ''QUIT'' # [''a''], stdout = []\<rparr>
        = (Inr (), self', h',
           \<lparr>stdin = [''a''],
            stdout = out @ [Score_line (self_score self') (length (lists geo_heap 0)) (format_1f p),
                            Rating_line (rate p)]\<rparr>)"
    and s: "self_score self' = right_answers [] (answers_of ?groups)"
    and t: "self_total self' = length (lists geo_heap 0)"
    and p: "percentage (self_score self') (length (lists geo_heap 0)) = Inr p" by blast
  have s0: "self_score self' = 0" using s by (simp add: right_answers_def)
  have n: "length (lists geo_heap 0) = 3" by (simp add: geo_lists geo_questions_def)
  from p s0 n have pv: "p = 0" by (simp add: more_scores)
  have ty: "typed ?groups @ [''x''] @ ''QUIT'' # [''a''] = [''x'', ''QUIT'', ''a'']"
    by (simp add: typed_def)
  from r have "run rev True (Quiz_init ''geo'' ''Geography'' 0 geo_heap) geo_heap
         \<lparr>stdin = [''x'', ''QUIT'', ''a''], stdout = []\<rparr>
       = (Inr (), self', h',
          \<lparr>stdin = [''a''], stdout = out @ [Score_line 0 3 ''0.0'', Rating_line Practice]\<rparr>)"
    unfolding ty s0 n pv more_scores .
  with s0 t n show ?thesis by auto
qed

end
